theory Spec2Isabelle
  imports Main "HOL-Library.AList"
begin

section \<open>Values and effects of \<^verbatim>\<open>recommends/providers/__init__.py\<close>\<close>

text \<open>
  The module defines the provider registry and the base class of the recommendation
  providers. Its methods raise exceptions, call the storage object and the domain's
  extraction methods, log, and submit background tasks. The embedding makes all of this
  explicit: a method is a function from the storage state to a result (\<open>Inl\<close> the
  exception raised), the calls it made in the order of their execution, and the storage
  state it leaves behind.
\<close>

datatype error = NotImplementedError | AttributeError | KeyError | ImportError | IOError

text \<open>A site object; only its \<^verbatim>\<open>id\<close> attribute is read.\<close>

datatype site = Site (site_id: int)

text \<open>A model instance as a deletion signal delivers it; only its \<^verbatim>\<open>id\<close> is read.\<close>

datatype model_instance = ModelInstance (instance_id: int)

type_synonym ('u, 'sc) votes = "('u \<times> string \<times> 'sc) list"

type_synonym 'sc similarities = "(string \<times> (string \<times> 'sc) list) list"

type_synonym ('u, 'sc) recommendations = "('u \<times> (string \<times> 'sc) list) list"

text \<open>
  The background tasks \<^verbatim>\<open>remove_similarities\<close> and \<^verbatim>\<open>remove_suggestions\<close> with
  their keyword arguments \<^verbatim>\<open>rated_model\<close> and \<^verbatim>\<open>object_id\<close>.
\<close>

datatype job = RemoveSimilarities string int | RemoveSuggestions string int

text \<open>
  One event per call that leaves the method being executed: the storage object's
  methods, the provider's own extraction methods, the functions of
  \<^verbatim>\<open>recommends.filtering\<close>, \<^verbatim>\<open>logger.info\<close>, a task's \<^verbatim>\<open>delay\<close>, and the
  exception that ends the execution.
\<close>

datatype ('i, 'r, 'u, 'sc) event =
    GetVotes
  | StoreVotes "('u, 'sc) votes"
  | StoreSimilarities "'sc similarities"
  | StoreRecommendations "('u, 'sc) recommendations"
  | GetIdentifier 'i int
  | GetItems
  | GetRatings 'i
  | GetRatingUser 'r
  | GetRatingScore 'r
  | GetRatingItem 'r
  | GetRatingSite 'r
  | IsRatingActive 'r
  | GetUsers
  | CalculateSimilarItems "('u, 'sc) votes" string
  | GetRecommendedItems "('u, 'sc) votes" "'sc similarities" 'u
  | LogInfo string
  | Delay job
  | Raised error

type_synonym ('a, 'e, 'st) prog = "'st \<Rightarrow> (error + 'a) \<times> 'e list \<times> 'st"

definition ret :: "'a \<Rightarrow> ('a, 'e, 'st) prog" where
  "ret x s = (Inr x, [], s)"

definition raise :: "error \<Rightarrow> ('a, ('i, 'r, 'u, 'sc) event, 'st) prog" where
  "raise e s = (Inl e, [Raised e], s)"

text \<open>
  Sequencing: an exception of the first part ends the execution, and the state reached
  so far stays as it is (nothing is rolled back).
\<close>

definition seq :: "('a, 'e, 'st) prog \<Rightarrow> ('a \<Rightarrow> ('b, 'e, 'st) prog) \<Rightarrow> ('b, 'e, 'st) prog" where
  "seq m f s =
     (case m s of
        (Inl e, t, s') \<Rightarrow> (Inl e, t, s')
      | (Inr x, t, s') \<Rightarrow> (case f x s' of (r, t', s'') \<Rightarrow> (r, t @ t', s'')))"

text \<open>A call of a method that reads the domain's data: it returns or raises.\<close>

definition call ::
  "('i, 'r, 'u, 'sc) event \<Rightarrow> error + 'a \<Rightarrow> ('a, ('i, 'r, 'u, 'sc) event, 'st) prog" where
  "call ev r s = (case r of Inl e \<Rightarrow> (Inl e, [ev, Raised e], s) | Inr x \<Rightarrow> (Inr x, [ev], s))"

text \<open>A call of a method of the storage object: it may also change the storage.\<close>

definition port ::
  "('i, 'r, 'u, 'sc) event \<Rightarrow> ('st \<Rightarrow> (error + 'a) \<times> 'st) \<Rightarrow>
   ('a, ('i, 'r, 'u, 'sc) event, 'st) prog" where
  "port ev f s =
     (case f s of (Inl e, s') \<Rightarrow> (Inl e, [ev, Raised e], s') | (Inr x, s') \<Rightarrow> (Inr x, [ev], s'))"

text \<open>A call that only has an effect outside (a log line, a task submission).\<close>

definition emit :: "'e \<Rightarrow> (unit, 'e, 'st) prog" where
  "emit ev s = (Inr (), [ev], s)"

text \<open>A \<^verbatim>\<open>for\<close> loop over a list that updates a local variable.\<close>

fun for_each :: "'x list \<Rightarrow> ('x \<Rightarrow> 'a \<Rightarrow> ('a, 'e, 'st) prog) \<Rightarrow> 'a \<Rightarrow> ('a, 'e, 'st) prog" where
  "for_each [] body acc = ret acc"
| "for_each (x # xs) body acc = seq (body x acc) (for_each xs body)"

section \<open>The storage object and the filtering functions\<close>

text \<open>
  The storage backend is chosen by \<^verbatim>\<open>RECOMMENDS_STORAGE_BACKEND\<close> and lives outside this
  module, so the methods the providers call on it are parameters: any backend, with any
  state \<open>'st\<close>, and any of its calls may raise.
\<close>

record ('i, 'u, 'sc, 'st) storage_port =
  get_identifier :: "'i \<Rightarrow> int \<Rightarrow> error + string"
  get_votes :: "'st \<Rightarrow> (error + ('u, 'sc) votes option) \<times> 'st"
  store_votes :: "('u, 'sc) votes \<Rightarrow> 'st \<Rightarrow> (error + unit) \<times> 'st"
  store_similarities :: "'sc similarities \<Rightarrow> 'st \<Rightarrow> (error + unit) \<times> 'st"
  store_recommendations :: "('u, 'sc) recommendations \<Rightarrow> 'st \<Rightarrow> (error + unit) \<times> 'st"

text \<open>
  \<^verbatim>\<open>calculate_similar_items\<close> and \<^verbatim>\<open>get_recommended_items\<close> of
  \<^verbatim>\<open>recommends.filtering\<close>: functions of their arguments that may raise. The metric
  passed as \<^verbatim>\<open>similarity\<close> is referred to by its name.
\<close>

record ('u, 'sc) filtering =
  calculate_similar_items :: "('u, 'sc) votes \<Rightarrow> string \<Rightarrow> error + 'sc similarities"
  get_recommended_items ::
    "('u, 'sc) votes \<Rightarrow> 'sc similarities \<Rightarrow> 'u \<Rightarrow> error + (string \<times> 'sc) list"

section \<open>RecommendationProvider\<close>

text \<open>
  An entry of \<^verbatim>\<open>rate_signals\<close>: the dotted path of a signal, or anything that is not
  a string.
\<close>

datatype signal_ref = SignalPath string | SignalObject

text \<open>
  A provider instance: its attributes and the methods a subclass overrides. \<open>attrs\<close>
  are the names \<^verbatim>\<open>getattr\<close> finds on the instance with a true value.
\<close>

record ('i, 'r, 'u, 'sc, 'st) provider =
  storage :: "('i, 'u, 'sc, 'st) storage_port"
  rate_signals :: "signal_ref list"
  similarity :: string
  attrs :: "string list"
  get_items :: "error + 'i list"
  get_ratings :: "'i \<Rightarrow> error + 'r list"
  get_rating_user :: "'r \<Rightarrow> error + 'u"
  get_rating_score :: "'r \<Rightarrow> error + 'sc"
  get_rating_item :: "'r \<Rightarrow> error + 'i"
  get_rating_site :: "'r \<Rightarrow> error + site option"
  is_rating_active :: "'r \<Rightarrow> error + bool"
  get_users :: "error + 'u list"

text \<open>
  The base class. \<^verbatim>\<open>__init__\<close> keeps a storage the class declares and takes the
  registry's otherwise; \<^verbatim>\<open>get_users\<close> queries the active users of the user model,
  which the parameter \<open>active_users\<close> stands for.
\<close>

definition RecommendationProvider ::
  "('i, 'u, 'sc, 'st) storage_port option \<Rightarrow> (error + 'u list) \<Rightarrow>
   ('i, 'u, 'sc, 'st) storage_port \<Rightarrow> ('i, 'r, 'u, 'sc, 'st) provider" where
  "RecommendationProvider own_storage active_users registry_storage =
     \<lparr> storage = (case own_storage of Some S \<Rightarrow> S | None \<Rightarrow> registry_storage),
       rate_signals = [SignalPath ''django.db.models.signals.pre_delete''],
       similarity = ''sim_distance'',
       attrs = [''storage'', ''rate_signals'', ''similarity'', ''get_items'', ''get_ratings'',
                ''get_rating_user'', ''get_rating_score'', ''get_rating_item'',
                ''get_rating_site'', ''is_rating_active'', ''pre_delete'', ''vote_list'',
                ''precompute'', ''get_users'', ''calculate_similarities'',
                ''calculate_recommendations''],
       get_items = Inl NotImplementedError,
       get_ratings = (\<lambda>obj. Inl NotImplementedError),
       get_rating_user = (\<lambda>rating. Inl NotImplementedError),
       get_rating_score = (\<lambda>rating. Inl NotImplementedError),
       get_rating_item = (\<lambda>rating. Inl NotImplementedError),
       get_rating_site = (\<lambda>rating. Inr None),
       is_rating_active = (\<lambda>rating. Inr True),
       get_users = active_users \<rparr>"

text \<open>
  \<^verbatim>\<open>pre_delete(sender, instance)\<close>: two task submissions. \<^verbatim>\<open>model_path\<close> comes
  from \<^verbatim>\<open>recommends.converters\<close> and is a parameter; it and the submission of a
  task are taken to return.
\<close>

definition pre_delete ::
  "('m \<Rightarrow> string) \<Rightarrow> ('i, 'r, 'u, 'sc, 'st) provider \<Rightarrow> 'm \<Rightarrow> model_instance \<Rightarrow>
   (unit, ('i, 'r, 'u, 'sc) event, 'st) prog" where
  "pre_delete model_path self sender inst =
     seq (emit (Delay (RemoveSimilarities (model_path sender) (instance_id inst)))) (\<lambda>_.
          emit (Delay (RemoveSuggestions (model_path sender) (instance_id inst))))"

text \<open>Reading \<^verbatim>\<open>.id\<close> of what \<^verbatim>\<open>get_rating_site\<close> returned.\<close>

definition attr_id :: "site option \<Rightarrow> (int, ('i, 'r, 'u, 'sc) event, 'st) prog" where
  "attr_id x = (case x of None \<Rightarrow> raise AttributeError | Some st \<Rightarrow> ret (site_id st))"

text \<open>The body of the inner loop of \<^verbatim>\<open>vote_list\<close>.\<close>

definition rating_vote ::
  "('i, 'r, 'u, 'sc, 'st) provider \<Rightarrow> 'i \<Rightarrow> 'r \<Rightarrow> ('u, 'sc) votes \<Rightarrow>
   (('u, 'sc) votes, ('i, 'r, 'u, 'sc) event, 'st) prog" where
  "rating_vote self item rating vote_list =
     seq (call (GetRatingUser rating) (get_rating_user self rating)) (\<lambda>user.
     seq (call (GetRatingScore rating) (get_rating_score self rating)) (\<lambda>score.
     seq (call (GetRatingSite rating) (get_rating_site self rating)) (\<lambda>rating_site.
     seq (attr_id rating_site) (\<lambda>site_id.
     seq (call (GetIdentifier item site_id) (get_identifier (storage self) item site_id))
       (\<lambda>identifier.
     ret (vote_list @ [(user, identifier, score)]))))))"

text \<open>The body of the outer loop.\<close>

definition item_votes ::
  "('i, 'r, 'u, 'sc, 'st) provider \<Rightarrow> 'i \<Rightarrow> ('u, 'sc) votes \<Rightarrow>
   (('u, 'sc) votes, ('i, 'r, 'u, 'sc) event, 'st) prog" where
  "item_votes self item vote_list =
     seq (call (GetRatings item) (get_ratings self item)) (\<lambda>ratings.
     for_each ratings (rating_vote self item) vote_list)"

definition vote_list ::
  "('i, 'r, 'u, 'sc, 'st) provider \<Rightarrow> (('u, 'sc) votes, ('i, 'r, 'u, 'sc) event, 'st) prog" where
  "vote_list self =
     seq (port GetVotes (get_votes (storage self))) (\<lambda>cached.
     case cached of
       Some votes \<Rightarrow> ret votes
     | None \<Rightarrow>
         seq (call GetItems (get_items self)) (\<lambda>items.
         seq (for_each items (item_votes self) []) (\<lambda>votes.
         seq (port (StoreVotes votes) (store_votes (storage self) votes)) (\<lambda>_.
         ret votes))))"

definition calculate_similarities ::
  "('u, 'sc) filtering \<Rightarrow> ('i, 'r, 'u, 'sc, 'st) provider \<Rightarrow> ('u, 'sc) votes \<Rightarrow>
   ('sc similarities, ('i, 'r, 'u, 'sc) event, 'st) prog" where
  "calculate_similarities F self votes =
     call (CalculateSimilarItems votes (similarity self))
          (calculate_similar_items F votes (similarity self))"

definition calculate_recommendations ::
  "('u, 'sc) filtering \<Rightarrow> ('i, 'r, 'u, 'sc, 'st) provider \<Rightarrow> ('u, 'sc) votes \<Rightarrow>
   'sc similarities \<Rightarrow> (('u, 'sc) recommendations, ('i, 'r, 'u, 'sc) event, 'st) prog" where
  "calculate_recommendations F self votes itemMatch =
     seq (call GetUsers (get_users self)) (\<lambda>users.
     for_each users (\<lambda>user recommendations.
       seq (call (GetRecommendedItems votes itemMatch user)
                 (get_recommended_items F votes itemMatch user)) (\<lambda>rankings.
       ret (recommendations @ [(user, rankings)]))) [])"

definition precompute ::
  "('u, 'sc) filtering \<Rightarrow> ('i, 'r, 'u, 'sc, 'st) provider \<Rightarrow> ('u, 'sc) votes option \<Rightarrow>
   (unit, ('i, 'r, 'u, 'sc) event, 'st) prog" where
  "precompute F self given =
     seq (case given of
            None \<Rightarrow> seq (emit (LogInfo ''fetching votes from the storage...'')) (\<lambda>_.
                    vote_list self)
          | Some votes \<Rightarrow> ret votes) (\<lambda>votes.
     seq (emit (LogInfo ''calculating similarities...'')) (\<lambda>_.
     seq (calculate_similarities F self votes) (\<lambda>itemMatch.
     seq (emit (LogInfo ''saving similarities...'')) (\<lambda>_.
     seq (port (StoreSimilarities itemMatch) (store_similarities (storage self) itemMatch)) (\<lambda>_.
     seq (emit (LogInfo ''saving suggestions...'')) (\<lambda>_.
     seq (calculate_recommendations F self votes itemMatch) (\<lambda>recommendations.
     port (StoreRecommendations recommendations)
          (store_recommendations (storage self) recommendations))))))))"

section \<open>RecommendationProviderRegistry\<close>

text \<open>
  The registry with its two dictionaries (a Python dictionary keeps the position of a
  key that is assigned again and appends a new one, as \<open>AList.update\<close> does), the
  provider objects created so far (an object is referred to by its position here, so
  that two references can be told to be the same object), and the listeners connected
  to signals: the signal, the bound method (object and name), and the sender.
  The two dictionaries are class attributes, shared by all registry objects of a
  process; the record stands for the one registry object the module creates,
  \<^verbatim>\<open>recommendation_registry\<close>, whose storage is also the one \<^verbatim>\<open>__init__\<close> of a
  provider reads.
\<close>

record ('m, 'sg, 'i, 'r, 'u, 'sc, 'st) registry =
  registry_storage :: "('i, 'u, 'sc, 'st) storage_port"
  vote_providers :: "(string \<times> nat) list"
  content_providers :: "(string \<times> nat) list"
  instances :: "('i, 'r, 'u, 'sc, 'st) provider list"
  connections :: "('sg \<times> (nat \<times> string) \<times> 'm) list"

text \<open>\<^verbatim>\<open>__init__\<close>: the storage backend is instantiated from the settings.\<close>

definition RecommendationProviderRegistry ::
  "('i, 'u, 'sc, 'st) storage_port \<Rightarrow> ('m, 'sg, 'i, 'r, 'u, 'sc, 'st) registry" where
  "RecommendationProviderRegistry S =
     \<lparr> registry_storage = S, vote_providers = [], content_providers = [],
       instances = [], connections = [] \<rparr>"

text \<open>\<^verbatim>\<open>signal.split('.')[-1]\<close>\<close>

definition sig_class_name :: "string \<Rightarrow> string" where
  "sig_class_name signal = rev (takeWhile (\<lambda>c. c \<noteq> CHR ''.'') (rev signal))"

text \<open>
  The body of the loop over \<^verbatim>\<open>rate_signals\<close>. \<^verbatim>\<open>import_from_classname\<close> comes from
  \<^verbatim>\<open>recommends.utils\<close> and is a parameter; it may raise.
\<close>

definition connect_signal ::
  "(string \<Rightarrow> error + 'sg) \<Rightarrow> nat \<Rightarrow> ('i, 'r, 'u, 'sc, 'st) provider \<Rightarrow> 'm list \<Rightarrow>
   signal_ref \<Rightarrow> ('sg \<times> (nat \<times> string) \<times> 'm) list \<Rightarrow>
   error + ('sg \<times> (nat \<times> string) \<times> 'm) list" where
  "connect_signal import_from_classname ref provider_instance content_models signal conns =
     (case signal of
        SignalObject \<Rightarrow> Inr conns
      | SignalPath path \<Rightarrow>
          (case import_from_classname path of
             Inl e \<Rightarrow> Inl e
           | Inr sig_instance \<Rightarrow>
               if sig_class_name path \<in> set (attrs provider_instance)
               then Inr (conns @ map (\<lambda>model. (sig_instance, (ref, sig_class_name path), model))
                                     content_models)
               else Inr conns))"

fun connect_signals ::
  "(string \<Rightarrow> error + 'sg) \<Rightarrow> nat \<Rightarrow> ('i, 'r, 'u, 'sc, 'st) provider \<Rightarrow> 'm list \<Rightarrow>
   signal_ref list \<Rightarrow> ('sg \<times> (nat \<times> string) \<times> 'm) list \<Rightarrow>
   (error + unit) \<times> ('sg \<times> (nat \<times> string) \<times> 'm) list" where
  "connect_signals imp ref inst content_models [] conns = (Inr (), conns)"
| "connect_signals imp ref inst content_models (signal # signals) conns =
     (case connect_signal imp ref inst content_models signal conns of
        Inl e \<Rightarrow> (Inl e, conns)
      | Inr conns' \<Rightarrow> connect_signals imp ref inst content_models signals conns')"

text \<open>
  \<^verbatim>\<open>register(vote_model, content_models, Provider)\<close>. A provider class is given by
  its constructor, a function of the storage of the registry. The result is the
  exception, if any, and the registry as the call leaves it.
\<close>

definition register ::
  "('m \<Rightarrow> string) \<Rightarrow> (string \<Rightarrow> error + 'sg) \<Rightarrow> ('m, 'sg, 'i, 'r, 'u, 'sc, 'st) registry \<Rightarrow>
   'm \<Rightarrow> 'm list \<Rightarrow> (('i, 'u, 'sc, 'st) storage_port \<Rightarrow> ('i, 'r, 'u, 'sc, 'st) provider) \<Rightarrow>
   (error + unit) \<times> ('m, 'sg, 'i, 'r, 'u, 'sc, 'st) registry" where
  "register model_path import_from_classname reg vote_model content_models Provider =
     (let provider_instance = Provider (registry_storage reg);
          ref = length (instances reg);
          reg1 = reg \<lparr> instances := instances reg @ [provider_instance] \<rparr>;
          reg2 = reg1 \<lparr> vote_providers :=
                         AList.update (model_path vote_model) ref (vote_providers reg1) \<rparr>;
          reg3 = reg2 \<lparr> content_providers :=
                         fold (\<lambda>model. AList.update (model_path model) ref) content_models
                              (content_providers reg2) \<rparr>
      in case connect_signals import_from_classname ref provider_instance content_models
                (rate_signals provider_instance) (connections reg3) of
           (r, conns) \<Rightarrow> (r, reg3 \<lparr> connections := conns \<rparr>))"

definition get_provider_for_vote ::
  "('m \<Rightarrow> string) \<Rightarrow> ('m, 'sg, 'i, 'r, 'u, 'sc, 'st) registry \<Rightarrow> 'm \<Rightarrow> error + nat" where
  "get_provider_for_vote model_path reg model =
     (case map_of (vote_providers reg) (model_path model) of
        None \<Rightarrow> Inl KeyError
      | Some provider_instance \<Rightarrow> Inr provider_instance)"

definition get_provider_for_content ::
  "('m \<Rightarrow> string) \<Rightarrow> ('m, 'sg, 'i, 'r, 'u, 'sc, 'st) registry \<Rightarrow> 'm \<Rightarrow> error + nat" where
  "get_provider_for_content model_path reg model =
     (case map_of (content_providers reg) (model_path model) of
        None \<Rightarrow> Inl KeyError
      | Some provider_instance \<Rightarrow> Inr provider_instance)"

definition get_vote_providers :: "('m, 'sg, 'i, 'r, 'u, 'sc, 'st) registry \<Rightarrow> nat list" where
  "get_vote_providers reg = map snd (vote_providers reg)"

text \<open>
  A start-up phase: \<^verbatim>\<open>register\<close> called for each entry of a list on a new registry.
  A call that raised has still changed the registry, and the next one starts from there.
\<close>

fun registrations ::
  "('m \<Rightarrow> string) \<Rightarrow> (string \<Rightarrow> error + 'sg) \<Rightarrow> ('m, 'sg, 'i, 'r, 'u, 'sc, 'st) registry \<Rightarrow>
   ('m \<times> 'm list \<times> (('i, 'u, 'sc, 'st) storage_port \<Rightarrow> ('i, 'r, 'u, 'sc, 'st) provider)) list \<Rightarrow>
   ('m, 'sg, 'i, 'r, 'u, 'sc, 'st) registry" where
  "registrations model_path imp reg [] = reg"
| "registrations model_path imp reg ((vote_model, content_models, Provider) # calls) =
     registrations model_path imp
       (snd (register model_path imp reg vote_model content_models Provider)) calls"

section \<open>Properties of an execution\<close>

text \<open>The stages of \<^verbatim>\<open>precompute\<close> a call belongs to.\<close>

fun stage :: "('i, 'r, 'u, 'sc) event \<Rightarrow> nat" where
  "stage (CalculateSimilarItems votes metric) = 2"
| "stage (StoreSimilarities itemMatch) = 3"
| "stage GetUsers = 4"
| "stage (GetRecommendedItems votes itemMatch user) = 4"
| "stage (StoreRecommendations recommendations) = 5"
| "stage ev = 1"

fun is_raised :: "('i, 'r, 'u, 'sc) event \<Rightarrow> bool" where
  "is_raised (Raised e) = True"
| "is_raised ev = False"

text \<open>The calls of the storage object, the extraction methods and the filtering functions.\<close>

fun is_step :: "('i, 'r, 'u, 'sc) event \<Rightarrow> bool" where
  "is_step (LogInfo msg) = False"
| "is_step (Delay j) = False"
| "is_step (Raised e) = False"
| "is_step ev = True"

text \<open>The writes to the storage object.\<close>

fun is_store :: "('i, 'r, 'u, 'sc) event \<Rightarrow> bool" where
  "is_store (StoreVotes votes) = True"
| "is_store (StoreSimilarities itemMatch) = True"
| "is_store (StoreRecommendations recommendations) = True"
| "is_store ev = False"

text \<open>The calls that compute similarities or recommendations.\<close>

fun is_compute :: "('i, 'r, 'u, 'sc) event \<Rightarrow> bool" where
  "is_compute (CalculateSimilarItems votes metric) = True"
| "is_compute GetUsers = True"
| "is_compute (GetRecommendedItems votes itemMatch user) = True"
| "is_compute ev = False"

text \<open>The calls that read the domain's data.\<close>

fun is_extraction :: "('i, 'r, 'u, 'sc) event \<Rightarrow> bool" where
  "is_extraction GetItems = True"
| "is_extraction (GetRatings item) = True"
| "is_extraction (GetRatingUser r) = True"
| "is_extraction (GetRatingScore r) = True"
| "is_extraction (GetRatingItem r) = True"
| "is_extraction (GetRatingSite r) = True"
| "is_extraction (IsRatingActive r) = True"
| "is_extraction ev = False"

text \<open>
  An execution ends where an exception is raised: the exception is the last event, and
  an execution that returns has raised none.
\<close>

definition well_ended :: "error + 'a \<Rightarrow> ('i, 'r, 'u, 'sc) event list \<Rightarrow> bool" where
  "well_ended r t =
     (case r of
        Inr x \<Rightarrow> \<not> list_ex is_raised t
      | Inl e \<Rightarrow> t \<noteq> [] \<and> last t = Raised e \<and> \<not> list_ex is_raised (butlast t))"

text \<open>
  The order of the stages as the specification words it: everything is computed first,
  and only then the artifacts are persisted, so no computation follows a write.
\<close>

definition persists_last :: "('i, 'r, 'u, 'sc) event list \<Rightarrow> bool" where
  "persists_last t = (\<not> list_ex is_compute (dropWhile (\<lambda>ev. \<not> is_store ev) t))"

text \<open>The artifacts an execution has handed to the storage object.\<close>

fun stored_similarities :: "('i, 'r, 'u, 'sc) event list \<Rightarrow> 'sc similarities list" where
  "stored_similarities [] = []"
| "stored_similarities (StoreSimilarities itemMatch # t) = itemMatch # stored_similarities t"
| "stored_similarities (ev # t) = stored_similarities t"

fun stored_recommendations ::
  "('i, 'r, 'u, 'sc) event list \<Rightarrow> ('u, 'sc) recommendations list" where
  "stored_recommendations [] = []"
| "stored_recommendations (StoreRecommendations recs # t) = recs # stored_recommendations t"
| "stored_recommendations (ev # t) = stored_recommendations t"

text \<open>
  A storage whose vote list is not invalidated: \<^verbatim>\<open>get_votes\<close> returns what
  \<^verbatim>\<open>store_votes\<close> stored, and neither reading it nor storing the other two artifacts
  changes what it returns.
\<close>

definition cached :: "('i, 'u, 'sc, 'st) storage_port \<Rightarrow> 'st \<Rightarrow> ('u, 'sc) votes \<Rightarrow> bool" where
  "cached S s votes = (fst (get_votes S s) = Inr (Some votes))"

definition serves_stored_votes :: "('i, 'u, 'sc, 'st) storage_port \<Rightarrow> bool" where
  "serves_stored_votes S =
     ((\<forall>votes s s'. store_votes S votes s = (Inr (), s') \<longrightarrow> cached S s' votes)
      \<and> (\<forall>votes s s'. get_votes S s = (Inr (Some votes), s') \<longrightarrow> cached S s' votes))"

definition stores_keep_votes :: "('i, 'u, 'sc, 'st) storage_port \<Rightarrow> bool" where
  "stores_keep_votes S =
     ((\<forall>votes m s s'. cached S s votes \<longrightarrow> store_similarities S m s = (Inr (), s')
            \<longrightarrow> cached S s' votes)
      \<and> (\<forall>votes m s s'. cached S s votes \<longrightarrow> store_recommendations S m s = (Inr (), s')
            \<longrightarrow> cached S s' votes))"

text \<open>The events of the two loops of \<^verbatim>\<open>vote_list\<close>.\<close>

fun is_walk :: "('i, 'r, 'u, 'sc) event \<Rightarrow> bool" where
  "is_walk (GetRatings item) = True"
| "is_walk (GetRatingUser r) = True"
| "is_walk (GetRatingScore r) = True"
| "is_walk (GetRatingSite r) = True"
| "is_walk (GetIdentifier item k) = True"
| "is_walk (Raised e) = True"
| "is_walk ev = False"

text \<open>The events of every execution of a method satisfy a property.\<close>

definition emits :: "('e \<Rightarrow> bool) \<Rightarrow> ('a, 'e, 'st) prog \<Rightarrow> bool" where
  "emits Q m = (\<forall>s. list_all Q (fst (snd (m s))))"

text \<open>
  The vote list as the specification words it: a rating for which
  \<^verbatim>\<open>is_rating_active\<close> is false is left out.
\<close>

definition active_rating_vote ::
  "('i, 'r, 'u, 'sc, 'st) provider \<Rightarrow> 'i \<Rightarrow> 'r \<Rightarrow> ('u, 'sc) votes \<Rightarrow>
   (('u, 'sc) votes, ('i, 'r, 'u, 'sc) event, 'st) prog" where
  "active_rating_vote self item r votes =
     seq (call (IsRatingActive r) (is_rating_active self r)) (\<lambda>active.
     if active then rating_vote self item r votes else ret votes)"

definition active_vote_list ::
  "('i, 'r, 'u, 'sc, 'st) provider \<Rightarrow> (('u, 'sc) votes, ('i, 'r, 'u, 'sc) event, 'st) prog" where
  "active_vote_list self =
     seq (port GetVotes (get_votes (storage self))) (\<lambda>cached_votes.
     case cached_votes of
       Some votes \<Rightarrow> ret votes
     | None \<Rightarrow>
         seq (call GetItems (get_items self)) (\<lambda>items.
         seq (for_each items (\<lambda>item votes.
                seq (call (GetRatings item) (get_ratings self item)) (\<lambda>ratings.
                for_each ratings (active_rating_vote self item) votes)) []) (\<lambda>votes.
         seq (port (StoreVotes votes) (store_votes (storage self) votes)) (\<lambda>_.
         ret votes))))"

section \<open>A domain to run the module on\<close>

text \<open>
  The class \<^verbatim>\<open>Rating\<close> of the module.
\<close>

record ('u, 'i, 'sc) Rating =
  user :: 'u
  rated_object :: 'i
  rating :: 'sc

text \<open>
  Modelled from the spec: a storage backend (the backends of \<^verbatim>\<open>recommends.storages\<close>
  are not part of this module). It keeps the three artifacts in memory:
  \<^verbatim>\<open>get_votes\<close> returns the vote list stored last or \<^verbatim>\<open>None\<close>, each store
  replaces the prior result, and the identifier combines the item with the site id
  (written as that many strokes, so that identifiers are distinct for the site ids
  from zero on).
\<close>

record ('u, 'sc) memory =
  votes_cache :: "('u, 'sc) votes option"
  similarities_store :: "'sc similarities option"
  recommendations_store :: "('u, 'sc) recommendations option"

definition memory_storage :: "(string, 'u, 'sc, ('u, 'sc) memory) storage_port" where
  "memory_storage =
     \<lparr> get_identifier = (\<lambda>item site_id. Inr (item @ ''@'' @ replicate (nat site_id) CHR ''|'')),
       get_votes = (\<lambda>s. (Inr (votes_cache s), s)),
       store_votes = (\<lambda>votes s. (Inr (), s \<lparr> votes_cache := Some votes \<rparr>)),
       store_similarities = (\<lambda>m s. (Inr (), s \<lparr> similarities_store := Some m \<rparr>)),
       store_recommendations = (\<lambda>recs s. (Inr (), s \<lparr> recommendations_store := Some recs \<rparr>)) \<rparr>"

definition empty_memory :: "('u, 'sc) memory" where
  "empty_memory = \<lparr> votes_cache = None, similarities_store = None,
                    recommendations_store = None \<rparr>"

text \<open>
  The domain of the specification's scenario: articles A1, A2, A3, users U1 and U2, and
  the ratings U1: A1 = 5, U1: A2 = 3, U2: A1 = 4, U2: A3 = 5, all on site 1. The rating
  of A2 is marked inactive.
\<close>

definition article_ratings :: "string \<Rightarrow> (string, string, int) Rating list" where
  "article_ratings item =
     (if item = ''A1'' then [\<lparr> user = ''U1'', rated_object = ''A1'', rating = 5 \<rparr>,
                             \<lparr> user = ''U2'', rated_object = ''A1'', rating = 4 \<rparr>]
      else if item = ''A2'' then [\<lparr> user = ''U1'', rated_object = ''A2'', rating = 3 \<rparr>]
      else if item = ''A3'' then [\<lparr> user = ''U2'', rated_object = ''A3'', rating = 5 \<rparr>]
      else [])"

definition ArticleProvider ::
  "(string, string, int, 'st) storage_port \<Rightarrow>
   (string, (string, string, int) Rating, string, int, 'st) provider" where
  "ArticleProvider reg_storage =
     (RecommendationProvider None (Inr [''U1'', ''U2'']) reg_storage)
       \<lparr> get_items := Inr [''A1'', ''A2'', ''A3''],
         get_ratings := (\<lambda>item. Inr (article_ratings item)),
         get_rating_user := (\<lambda>r. Inr (user r)),
         get_rating_score := (\<lambda>r. Inr (rating r)),
         get_rating_item := (\<lambda>r. Inr (rated_object r)),
         get_rating_site := (\<lambda>r. Inr (Some (Site 1))),
         is_rating_active := (\<lambda>r. Inr (rated_object r \<noteq> ''A2'')) \<rparr>"

text \<open>The same domain with \<^verbatim>\<open>get_rating_site\<close> left as the base class has it.\<close>

definition SingleSiteProvider ::
  "(string, string, int, 'st) storage_port \<Rightarrow>
   (string, (string, string, int) Rating, string, int, 'st) provider" where
  "SingleSiteProvider reg_storage =
     (ArticleProvider reg_storage) \<lparr> get_rating_site := (\<lambda>r. Inr None) \<rparr>"

text \<open>
  Stand-ins for the functions of \<^verbatim>\<open>recommends.filtering\<close>: every rated item with no
  related items, and for a user the items the others rated.
\<close>

definition plain_filtering :: "(string, int) filtering" where
  "plain_filtering =
     \<lparr> calculate_similar_items = (\<lambda>votes metric. Inr (map (\<lambda>(u, i, sc). (i, [])) votes)),
       get_recommended_items = (\<lambda>votes itemMatch usr.
         Inr (map (\<lambda>(u, i, sc). (i, sc)) (filter (\<lambda>(u, i, sc). u \<noteq> usr) votes))) \<rparr>"

text \<open>
  Every execution of a method ends where it raises, and the calls of every execution
  are in the order of the stages, between two given ones.
\<close>

definition ends_well :: "('a, ('i, 'r, 'u, 'sc) event, 'st) prog \<Rightarrow> bool" where
  "ends_well m = (\<forall>s. well_ended (fst (m s)) (fst (snd (m s))))"

definition staged :: "nat \<Rightarrow> nat \<Rightarrow> ('a, ('i, 'r, 'u, 'sc) event, 'st) prog \<Rightarrow> bool" where
  "staged lo hi m =
     (\<forall>s. sorted (map stage (filter is_step (fst (snd (m s)))))
          \<and> list_all (\<lambda>ev. lo \<le> stage ev \<and> stage ev \<le> hi) (filter is_step (fst (snd (m s)))))"

text \<open>
  The first stage of \<^verbatim>\<open>precompute\<close>, the \<^verbatim>\<open>if vote_list is None\<close> at its
  beginning: the list to compute from.
\<close>

definition resolve_votes ::
  "('i, 'r, 'u, 'sc, 'st) provider \<Rightarrow> ('u, 'sc) votes option \<Rightarrow>
   (('u, 'sc) votes, ('i, 'r, 'u, 'sc) event, 'st) prog" where
  "resolve_votes self given =
     (case given of
        None \<Rightarrow> seq (emit (LogInfo ''fetching votes from the storage...'')) (\<lambda>_.
                vote_list self)
      | Some votes \<Rightarrow> ret votes)"

text \<open>A method that neither reads nor changes the storage.\<close>

definition stateless :: "('a, 'e, 'st) prog \<Rightarrow> bool" where
  "stateless m = (\<exists>r t. \<forall>s. m s = (r, t, s))"

text \<open>
  Stand-ins for \<^verbatim>\<open>model_path\<close> and \<^verbatim>\<open>import_from_classname\<close>: models are given
  by their class names in one application, and the only module that can be imported
  from is the one of Django's model signals.
\<close>

definition app_model_path :: "string \<Rightarrow> string" where
  "app_model_path model = ''articles.'' @ model"

definition import_signal :: "string \<Rightarrow> error + string" where
  "import_signal path =
     (if take 25 path = ''django.db.models.signals.'' then Inr (drop 25 path)
      else Inl ImportError)"

text \<open>Filtering functions whose ranking of recommendations fails.\<close>

definition failing_filtering :: "(string, int) filtering" where
  "failing_filtering =
     plain_filtering \<lparr> get_recommended_items := (\<lambda>votes itemMatch usr. Inl IOError) \<rparr>"

text \<open>The registry of a process that uses the storage in memory.\<close>

definition article_registry ::
  "(string, string, string, (string, string, int) Rating, string, int, (string, int) memory)
     registry" where
  "article_registry = RecommendationProviderRegistry memory_storage"

section \<open>Sequencing and loops\<close>

lemma seq_ret: "seq (ret x) f s = f x s"
  by (simp add: seq_def ret_def split: prod.splits)

lemma seq_raise: "seq (raise e) f s = (Inl e, [Raised e], s)"
  by (simp add: seq_def raise_def)

lemma seq_emit: "seq (emit ev) f s = (case f () s of (r, t, s') \<Rightarrow> (r, ev # t, s'))"
  by (simp add: seq_def emit_def)

lemma seq_call_Inr:
  "seq (call ev (Inr x)) f s = (case f x s of (r, t, s') \<Rightarrow> (r, ev # t, s'))"
  by (simp add: seq_def call_def)

lemma seq_call_Inl: "seq (call ev (Inl e)) f s = (Inl e, [ev, Raised e], s)"
  by (simp add: seq_def call_def)

lemma seq_port_Inr:
  "p s = (Inr x, s1) \<Longrightarrow> seq (port ev p) f s = (case f x s1 of (r, t, s') \<Rightarrow> (r, ev # t, s'))"
  by (simp add: seq_def port_def)

lemma seq_port_Inl: "p s = (Inl e, s1) \<Longrightarrow> seq (port ev p) f s = (Inl e, [ev, Raised e], s1)"
  by (simp add: seq_def port_def)

lemma seq_result:
  "m s = (Inr x, t, s1) \<Longrightarrow> f x s1 = (r, t', s2) \<Longrightarrow> seq m f s = (r, t @ t', s2)"
  by (simp add: seq_def)

lemma seq_failed: "m s = (Inl e, t, s1) \<Longrightarrow> seq m f s = (Inl e, t, s1)"
  by (simp add: seq_def)

lemma rating_vote_ok:
  assumes "get_rating_user self r = Inr u" "get_rating_score self r = Inr sc"
    "get_rating_site self r = Inr (Some st)"
    "get_identifier (storage self) item (site_id st) = Inr ident"
  shows "rating_vote self item r votes s =
    (Inr (votes @ [(u, ident, sc)]),
     [GetRatingUser r, GetRatingScore r, GetRatingSite r, GetIdentifier item (site_id st)], s)"
  using assms by (simp add: rating_vote_def attr_id_def seq_call_Inr seq_ret ret_def)

lemma for_each_rating_vote:
  assumes "\<forall>r\<in>set rs. get_rating_user self r = Inr (usr r) \<and> get_rating_score self r = Inr (score r)
      \<and> get_rating_site self r = Inr (Some (st r))
      \<and> get_identifier (storage self) item (site_id (st r)) = Inr (ident item r)"
  shows "for_each rs (rating_vote self item) votes s =
    (Inr (votes @ map (\<lambda>r. (usr r, ident item r, score r)) rs),
     concat (map (\<lambda>r. [GetRatingUser r, GetRatingScore r, GetRatingSite r,
                        GetIdentifier item (site_id (st r))]) rs), s)"
  using assms
proof (induction rs arbitrary: votes)
  case Nil
  then show ?case by (simp add: ret_def)
next
  case (Cons r rs)
  have step: "rating_vote self item r votes s =
    (Inr (votes @ [(usr r, ident item r, score r)]),
     [GetRatingUser r, GetRatingScore r, GetRatingSite r, GetIdentifier item (site_id (st r))], s)"
    using Cons.prems by (intro rating_vote_ok) auto
  have rest: "for_each rs (rating_vote self item) (votes @ [(usr r, ident item r, score r)]) s =
    (Inr ((votes @ [(usr r, ident item r, score r)]) @ map (\<lambda>r. (usr r, ident item r, score r)) rs),
     concat (map (\<lambda>r. [GetRatingUser r, GetRatingScore r, GetRatingSite r,
                        GetIdentifier item (site_id (st r))]) rs), s)"
    using Cons.prems by (intro Cons.IH) auto
  show ?case
    using step rest by (simp add: seq_def)
qed


lemma item_votes_ok:
  assumes "get_ratings self item = Inr rs"
    and "\<forall>r\<in>set rs. get_rating_user self r = Inr (usr r) \<and> get_rating_score self r = Inr (score r)
      \<and> get_rating_site self r = Inr (Some (st r))
      \<and> get_identifier (storage self) item (site_id (st r)) = Inr (ident item r)"
  shows "item_votes self item votes s =
    (Inr (votes @ map (\<lambda>r. (usr r, ident item r, score r)) rs),
     GetRatings item # concat (map (\<lambda>r. [GetRatingUser r, GetRatingScore r, GetRatingSite r,
                        GetIdentifier item (site_id (st r))]) rs), s)"
proof -
  have "for_each rs (rating_vote self item) votes s =
    (Inr (votes @ map (\<lambda>r. (usr r, ident item r, score r)) rs),
     concat (map (\<lambda>r. [GetRatingUser r, GetRatingScore r, GetRatingSite r,
                        GetIdentifier item (site_id (st r))]) rs), s)"
    using assms(2) by (rule for_each_rating_vote)
  then show ?thesis
    using assms(1) by (simp add: item_votes_def seq_call_Inr)
qed

lemma for_each_item_votes:
  assumes "\<forall>item\<in>set items. get_ratings self item = Inr (ratings item)"
    and "\<forall>item\<in>set items. \<forall>r\<in>set (ratings item).
      get_rating_user self r = Inr (usr r) \<and> get_rating_score self r = Inr (score r)
      \<and> get_rating_site self r = Inr (Some (st r))
      \<and> get_identifier (storage self) item (site_id (st r)) = Inr (ident item r)"
  shows "for_each items (item_votes self) votes s =
    (Inr (votes @ concat (map (\<lambda>item. map (\<lambda>r. (usr r, ident item r, score r)) (ratings item)) items)),
     concat (map (\<lambda>item. GetRatings item #
        concat (map (\<lambda>r. [GetRatingUser r, GetRatingScore r, GetRatingSite r,
                        GetIdentifier item (site_id (st r))]) (ratings item))) items), s)"
  using assms
proof (induction items arbitrary: votes)
  case Nil
  then show ?case by (simp add: ret_def)
next
  case (Cons item items)
  have step: "item_votes self item votes s =
    (Inr (votes @ map (\<lambda>r. (usr r, ident item r, score r)) (ratings item)),
     GetRatings item # concat (map (\<lambda>r. [GetRatingUser r, GetRatingScore r, GetRatingSite r,
                        GetIdentifier item (site_id (st r))]) (ratings item)), s)"
    using Cons.prems by (intro item_votes_ok) auto
  have rest: "for_each items (item_votes self)
      (votes @ map (\<lambda>r. (usr r, ident item r, score r)) (ratings item)) s =
    (Inr ((votes @ map (\<lambda>r. (usr r, ident item r, score r)) (ratings item)) @
       concat (map (\<lambda>item. map (\<lambda>r. (usr r, ident item r, score r)) (ratings item)) items)),
     concat (map (\<lambda>item. GetRatings item #
        concat (map (\<lambda>r. [GetRatingUser r, GetRatingScore r, GetRatingSite r,
                        GetIdentifier item (site_id (st r))]) (ratings item))) items), s)"
    using Cons.prems by (intro Cons.IH) auto
  show ?case
    using step rest by (simp add: seq_def)
qed

section \<open>Defaults of the base class\<close>

text \<open>
  C8. The five extraction methods a subclass has to provide (\<^verbatim>\<open>get_items\<close>,
  \<^verbatim>\<open>get_ratings\<close>, \<^verbatim>\<open>get_rating_user\<close>, \<^verbatim>\<open>get_rating_score\<close>,
  \<^verbatim>\<open>get_rating_item\<close>) raise \<^verbatim>\<open>NotImplementedError\<close> when called on the base class,
  whatever their argument; \<^verbatim>\<open>get_rating_site\<close> returns \<^verbatim>\<open>None\<close> and
  \<^verbatim>\<open>is_rating_active\<close> returns \<^verbatim>\<open>True\<close>.
\<close>

theorem required_methods_not_implemented:
  "get_items (RecommendationProvider own users reg) = Inl NotImplementedError
   \<and> get_ratings (RecommendationProvider own users reg) x = Inl NotImplementedError
   \<and> get_rating_user (RecommendationProvider own users reg) r = Inl NotImplementedError
   \<and> get_rating_score (RecommendationProvider own users reg) r = Inl NotImplementedError
   \<and> get_rating_item (RecommendationProvider own users reg) r = Inl NotImplementedError
   \<and> get_rating_site (RecommendationProvider own users reg) r = Inr None
   \<and> is_rating_active (RecommendationProvider own users reg) r = Inr True"
  by (simp add: RecommendationProvider_def)

section \<open>The vote list\<close>

text \<open>
  C1 (as amended). On a cache miss, that is when \<^verbatim>\<open>get_votes\<close> returns \<^verbatim>\<open>None\<close>,
  and when every extraction call, the site's id, \<^verbatim>\<open>get_identifier\<close> and
  \<^verbatim>\<open>store_votes\<close> succeed, \<^verbatim>\<open>vote_list\<close> walks every item of \<^verbatim>\<open>get_items\<close> and
  every rating of \<^verbatim>\<open>get_ratings(item)\<close> in their order, returns one tuple
  (user, identifier, score) for each of these ratings, whether \<^verbatim>\<open>is_rating_active\<close>
  holds for it or not (the method is never called), and its last call hands exactly
  the returned list to \<^verbatim>\<open>store_votes\<close>.
\<close>

theorem vote_list_cache_miss:
  assumes "get_votes (storage self) s = (Inr None, s1)"
    and "get_items self = Inr items"
    and "\<forall>item\<in>set items. get_ratings self item = Inr (ratings item)"
    and "\<forall>item\<in>set items. \<forall>r\<in>set (ratings item).
      get_rating_user self r = Inr (usr r) \<and> get_rating_score self r = Inr (score r)
      \<and> get_rating_site self r = Inr (Some (st r))
      \<and> get_identifier (storage self) item (site_id (st r)) = Inr (ident item r)"
    and "votes = concat (map (\<lambda>item. map (\<lambda>r. (usr r, ident item r, score r)) (ratings item)) items)"
    and "store_votes (storage self) votes s1 = (Inr (), s2)"
  shows "vote_list self s =
    (Inr votes,
     GetVotes # GetItems #
       concat (map (\<lambda>item. GetRatings item #
          concat (map (\<lambda>r. [GetRatingUser r, GetRatingScore r, GetRatingSite r,
                             GetIdentifier item (site_id (st r))]) (ratings item))) items)
       @ [StoreVotes votes],
     s2)"
proof -
  have loop: "for_each items (item_votes self) [] s1 =
    (Inr votes,
     concat (map (\<lambda>item. GetRatings item #
        concat (map (\<lambda>r. [GetRatingUser r, GetRatingScore r, GetRatingSite r,
                        GetIdentifier item (site_id (st r))]) (ratings item))) items), s1)"
    using for_each_item_votes [where votes = "[]" and s = s1 and usr = usr and score = score
        and st = st and ident = ident and ratings = ratings and items = items and self = self]
      assms(3) assms(4) assms(5) by simp
  show ?thesis
    using assms(1) assms(2) assms(6) loop
    by (simp add: vote_list_def seq_port_Inr seq_call_Inr seq_def [of "for_each items (item_votes self) []"] ret_def)
qed

theorem vote_list_cache_miss_witness:
  "vote_list (ArticleProvider memory_storage) (empty_memory :: (string, int) memory) =
     (Inr [(''U1'', ''A1@|'', 5), (''U2'', ''A1@|'', 4), (''U1'', ''A2@|'', 3), (''U2'', ''A3@|'', 5)],
      GetVotes # GetItems #
        concat (map (\<lambda>item. GetRatings item #
          concat (map (\<lambda>r. [GetRatingUser r, GetRatingScore r, GetRatingSite r,
                             GetIdentifier item 1]) (article_ratings item)))
          [''A1'', ''A2'', ''A3''])
        @ [StoreVotes [(''U1'', ''A1@|'', 5), (''U2'', ''A1@|'', 4), (''U1'', ''A2@|'', 3),
                       (''U2'', ''A3@|'', 5)]],
      empty_memory \<lparr> votes_cache :=
        Some [(''U1'', ''A1@|'', 5), (''U2'', ''A1@|'', 4), (''U1'', ''A2@|'', 3),
              (''U2'', ''A3@|'', 5)] \<rparr>)"
  using vote_list_cache_miss [where self = "ArticleProvider memory_storage"
      and s = "empty_memory :: (string, int) memory" and ?s1.0 = empty_memory
      and items = "[''A1'', ''A2'', ''A3'']" and ratings = article_ratings
      and usr = user and score = rating and st = "\<lambda>r. Site 1"
      and ident = "\<lambda>item r. item @ ''@|''"
      and votes = "[(''U1'', ''A1@|'', 5), (''U2'', ''A1@|'', 4), (''U1'', ''A2@|'', 3),
                    (''U2'', ''A3@|'', 5)]"
      and ?s2.0 = "empty_memory \<lparr> votes_cache :=
        Some [(''U1'', ''A1@|'', 5), (''U2'', ''A1@|'', 4), (''U1'', ''A2@|'', 3),
              (''U2'', ''A3@|'', 5)] \<rparr>"]
  by (simp add: ArticleProvider_def RecommendationProvider_def memory_storage_def
      empty_memory_def article_ratings_def)

text \<open>
  The claim as worded fails on the scenario's domain, where the rating of A2 is
  inactive: the list returned contains its tuple, and the list without the inactive
  ratings is a different one.
\<close>

theorem vote_list_includes_inactive:
  "fst (vote_list (ArticleProvider memory_storage) (empty_memory :: (string, int) memory)) =
     Inr [(''U1'', ''A1@|'', 5), (''U2'', ''A1@|'', 4), (''U1'', ''A2@|'', 3), (''U2'', ''A3@|'', 5)]
   \<and> is_rating_active (ArticleProvider (memory_storage :: (string, string, int, (string, int) memory) storage_port))
        \<lparr> user = ''U1'', rated_object = ''A2'', rating = 3 \<rparr> = Inr False
   \<and> fst (active_vote_list (ArticleProvider memory_storage) (empty_memory :: (string, int) memory)) =
     Inr [(''U1'', ''A1@|'', 5), (''U2'', ''A1@|'', 4), (''U2'', ''A3@|'', 5)]"
  by (simp add: vote_list_def active_vote_list_def active_rating_vote_def item_votes_def
      rating_vote_def attr_id_def seq_def port_def call_def ret_def ArticleProvider_def
      RecommendationProvider_def memory_storage_def empty_memory_def article_ratings_def)

section \<open>The site of a rating\<close>

lemma for_each_no_ratings:
  assumes "\<forall>i\<in>set items. get_ratings self i = Inr []"
  shows "for_each items (item_votes self) votes s = (Inr votes, map GetRatings items, s)"
  using assms
proof (induction items)
  case Nil
  then show ?case by (simp add: ret_def)
next
  case (Cons i items)
  have "item_votes self i votes s = (Inr votes, [GetRatings i], s)"
    using Cons.prems by (simp add: item_votes_def seq_call_Inr ret_def)
  moreover have "for_each items (item_votes self) votes s = (Inr votes, map GetRatings items, s)"
    using Cons by simp
  ultimately show ?case by (simp add: seq_def)
qed

lemma for_each_append:
  "for_each (xs @ ys) body acc = seq (for_each xs body acc) (for_each ys body)"
proof (induction xs arbitrary: acc)
  case Nil
  show ?case by (rule ext) (simp add: seq_ret)
next
  case (Cons x xs)
  show ?case
    by (rule ext) (simp add: Cons seq_def split: prod.splits sum.splits)
qed

lemma rating_vote_no_site:
  assumes "get_rating_site self r = Inr None"
  shows "rating_vote self item r votes s =
    (case get_rating_user self r of
       Inl e \<Rightarrow> (Inl e, [GetRatingUser r, Raised e], s)
     | Inr u \<Rightarrow> (case get_rating_score self r of
         Inl e \<Rightarrow> (Inl e, [GetRatingUser r, GetRatingScore r, Raised e], s)
       | Inr sc \<Rightarrow> (Inl AttributeError,
           [GetRatingUser r, GetRatingScore r, GetRatingSite r, Raised AttributeError], s)))"
  using assms
  by (simp add: rating_vote_def attr_id_def seq_call_Inr seq_call_Inl seq_raise split: sum.splits)

lemma first_rating_fails:
  assumes "\<forall>i\<in>set empties. get_ratings self i = Inr []"
    and "get_ratings self item = Inr (r # rs)"
    and "rating_vote self item r [] s = (Inl e, t, s)"
  shows "for_each (empties @ item # rest) (item_votes self) [] s =
    (Inl e, map GetRatings empties @ GetRatings item # t, s)"
proof -
  have a: "for_each empties (item_votes self) [] s = (Inr [], map GetRatings empties, s)"
    using assms(1) by (rule for_each_no_ratings)
  have "for_each (r # rs) (rating_vote self item) [] s = (Inl e, t, s)"
    using assms(3) by (simp add: seq_def)
  then have b: "item_votes self item [] s = (Inl e, GetRatings item # t, s)"
    using assms(2) by (simp add: item_votes_def seq_call_Inr)
  have c: "for_each (item # rest) (item_votes self) [] s = (Inl e, GetRatings item # t, s)"
    using b by (simp add: seq_def)
  show ?thesis
    using a c by (simp add: for_each_append seq_def)
qed


text \<open>
  C3. A provider that leaves \<^verbatim>\<open>get_rating_site\<close> as the base class defines it gets
  \<^verbatim>\<open>None\<close> for every rating. When \<^verbatim>\<open>vote_list\<close> misses the cache and meets a
  first rating (the items before it have no ratings), the call never returns a list;
  and when the user and the score of that rating are extracted, the exception is the
  \<^verbatim>\<open>AttributeError\<close> of reading \<^verbatim>\<open>.id\<close> of \<^verbatim>\<open>None\<close>, right after the call of
  \<^verbatim>\<open>get_rating_site\<close>: no identifier is asked for, nothing is stored.
\<close>

theorem default_site_dereference:
  assumes "get_rating_site self = get_rating_site (RecommendationProvider own users reg)"
    and "get_votes (storage self) s = (Inr None, s1)"
    and "get_items self = Inr (empties @ item # rest)"
    and "\<forall>i\<in>set empties. get_ratings self i = Inr []"
    and "get_ratings self item = Inr (r # rs)"
  shows "isl (fst (vote_list self s))
    \<and> (get_rating_user self r = Inr u \<longrightarrow> get_rating_score self r = Inr sc \<longrightarrow>
        vote_list self s =
          (Inl AttributeError,
           GetVotes # GetItems # map GetRatings empties @
             [GetRatings item, GetRatingUser r, GetRatingScore r, GetRatingSite r,
              Raised AttributeError],
           s1))"
proof -
  have site: "get_rating_site self r = Inr None"
    using assms(1) by (simp add: RecommendationProvider_def)
  obtain e t where rv: "rating_vote self item r [] s1 = (Inl e, t, s1)"
    and exact: "get_rating_user self r = Inr u \<Longrightarrow> get_rating_score self r = Inr sc \<Longrightarrow>
      e = AttributeError \<and>
      t = [GetRatingUser r, GetRatingScore r, GetRatingSite r, Raised AttributeError]"
    using rating_vote_no_site [OF site, of item "[]" s1]
    by (auto split: sum.splits)
  have loop: "for_each (empties @ item # rest) (item_votes self) [] s1 =
    (Inl e, map GetRatings empties @ GetRatings item # t, s1)"
    using assms(4) assms(5) rv by (rule first_rating_fails)
  have run: "vote_list self s =
    (Inl e, GetVotes # GetItems # map GetRatings empties @ GetRatings item # t, s1)"
    using assms(2) assms(3) loop
    by (simp add: vote_list_def seq_port_Inr seq_call_Inr
        seq_def [of "for_each (empties @ item # rest) (item_votes self) []"])
  show ?thesis
    using run exact by simp
qed

theorem default_site_dereference_witness:
  "vote_list (SingleSiteProvider memory_storage) (empty_memory :: (string, int) memory) =
     (Inl AttributeError,
      [GetVotes, GetItems, GetRatings ''A1'',
       GetRatingUser \<lparr> user = ''U1'', rated_object = ''A1'', rating = 5 \<rparr>,
       GetRatingScore \<lparr> user = ''U1'', rated_object = ''A1'', rating = 5 \<rparr>,
       GetRatingSite \<lparr> user = ''U1'', rated_object = ''A1'', rating = 5 \<rparr>,
       Raised AttributeError],
      empty_memory)"
  using default_site_dereference [where self = "SingleSiteProvider memory_storage"
      and own = None and users = "Inr [''U1'', ''U2'']" and reg = memory_storage
      and s = "empty_memory :: (string, int) memory" and ?s1.0 = empty_memory
      and empties = "[]" and item = "''A1''" and rest = "[''A2'', ''A3'']"
      and r = "\<lparr> user = ''U1'', rated_object = ''A1'', rating = 5 \<rparr>"
      and rs = "[\<lparr> user = ''U2'', rated_object = ''A1'', rating = 4 \<rparr>]"
      and u = "''U1''" and sc = 5]
  by (simp add: SingleSiteProvider_def ArticleProvider_def RecommendationProvider_def
      memory_storage_def empty_memory_def article_ratings_def)

section \<open>The cached vote list\<close>

lemma emitsI: "(\<And>s r t s'. m s = (r, t, s') \<Longrightarrow> list_all Q t) \<Longrightarrow> emits Q m"
  unfolding emits_def by (metis prod.collapse)

lemma emitsD: "emits Q m \<Longrightarrow> m s = (r, t, s') \<Longrightarrow> list_all Q t"
  unfolding emits_def by (metis fst_conv snd_conv)

lemma emits_ret: "emits Q (ret x)"
  by (simp add: emits_def ret_def)

lemma emits_raise: "Q (Raised e) \<Longrightarrow> emits Q (raise e)"
  by (simp add: emits_def raise_def)

lemma emits_emit: "Q ev \<Longrightarrow> emits Q (emit ev)"
  by (simp add: emits_def emit_def)

lemma emits_call: "Q ev \<Longrightarrow> (\<And>e. Q (Raised e)) \<Longrightarrow> emits Q (call ev r)"
  by (simp add: emits_def call_def split: sum.splits)

lemma emits_port: "Q ev \<Longrightarrow> (\<And>e. Q (Raised e)) \<Longrightarrow> emits Q (port ev f)"
  by (simp add: emits_def port_def split: sum.splits prod.splits)

lemma emits_seq:
  assumes "emits Q m" and "\<And>x. emits Q (f x)"
  shows "emits Q (seq m f)"
proof (rule emitsI)
  fix s r t s'
  assume run: "seq m f s = (r, t, s')"
  obtain r1 t1 s1 where m: "m s = (r1, t1, s1)"
    by (metis prod.collapse)
  have t1: "list_all Q t1"
    using assms(1) m by (rule emitsD)
  show "list_all Q t"
  proof (cases r1)
    case (Inl e)
    then show ?thesis using run m t1 by (simp add: seq_def)
  next
    case (Inr x)
    obtain r2 t2 s2 where f: "f x s1 = (r2, t2, s2)"
      by (metis prod.collapse)
    have "list_all Q t2"
      using assms(2) f by (rule emitsD)
    then show ?thesis using run m t1 f Inr by (auto simp add: seq_def)
  qed
qed

lemma emits_for_each:
  assumes "\<And>x acc. emits Q (body x acc)"
  shows "emits Q (for_each xs body acc)"
proof (induction xs arbitrary: acc)
  case Nil
  show ?case by (simp add: emits_ret)
next
  case (Cons x xs)
  show ?case
    by (simp, rule emits_seq, rule assms, rule Cons)
qed

lemma emits_rating_vote: "emits is_walk (rating_vote self item r votes)"
  unfolding rating_vote_def attr_id_def
  by (intro emits_seq emits_call emits_ret) (auto intro!: emits_raise emits_ret split: option.splits)

lemma emits_item_votes: "emits is_walk (item_votes self item votes)"
  unfolding item_votes_def
  by (intro emits_seq emits_call emits_for_each emits_rating_vote) simp_all

lemma emits_walk: "emits is_walk (for_each items (item_votes self) votes)"
  by (rule emits_for_each) (rule emits_item_votes)

lemma walk_no_get_items: "list_all is_walk t \<Longrightarrow> count_list t GetItems = 0"
  by (induction t) auto

lemma vote_list_hit:
  "get_votes (storage self) s = (Inr (Some votes), s1) \<Longrightarrow>
   vote_list self s = (Inr votes, [GetVotes], s1)"
  by (simp add: vote_list_def seq_port_Inr ret_def)

lemma vote_list_returns:
  assumes "vote_list self s = (Inr votes, t, s1)"
  shows "(get_votes (storage self) s = (Inr (Some votes), s1) \<and> t = [GetVotes])
    \<or> (\<exists>s0 t0. store_votes (storage self) votes s0 = (Inr (), s1)
          \<and> t = GetVotes # GetItems # t0 @ [StoreVotes votes]
          \<and> list_all is_walk t0)"
proof -
  obtain r0 sa where gv: "get_votes (storage self) s = (r0, sa)"
    by (metis prod.collapse)
  show ?thesis
  proof (cases r0)
    case (Inl e)
    then show ?thesis using assms gv by (simp add: vote_list_def seq_port_Inl)
  next
    case (Inr cached_votes)
    show ?thesis
    proof (cases cached_votes)
      case (Some v)
      then show ?thesis using assms gv Inr by (simp add: vote_list_def seq_port_Inr ret_def)
    next
      case None
      show ?thesis
      proof (cases "get_items self")
        case (Inl e)
        then show ?thesis
          using assms gv Inr None by (simp add: vote_list_def seq_port_Inr seq_call_Inl)
      next
        case items: (Inr items)
        obtain r2 t0 sb where loop: "for_each items (item_votes self) [] sa = (r2, t0, sb)"
          by (metis prod.collapse)
        have t0: "list_all is_walk t0"
          using emits_walk loop by (rule emitsD)
        have run: "vote_list self s =
          (case seq (for_each items (item_votes self) [])
                 (\<lambda>votes. seq (port (StoreVotes votes) (store_votes (storage self) votes))
                    (\<lambda>_. ret votes)) sa of
             (r, t, s') \<Rightarrow> (r, GetVotes # GetItems # t, s'))"
          using gv Inr None items
          by (simp add: vote_list_def seq_port_Inr seq_call_Inr split: prod.splits)
        show ?thesis
        proof (cases r2)
          case (Inl e)
          then show ?thesis using assms run loop by (simp add: seq_def)
        next
          case vs: (Inr vs)
          obtain r3 sc where sv: "store_votes (storage self) vs sb = (r3, sc)"
            by (metis prod.collapse)
          show ?thesis
          proof (cases r3)
            case (Inl e)
            then show ?thesis
              using assms run loop vs sv by (simp add: seq_def port_def)
          next
            case (Inr u)
            then have "votes = vs \<and> s1 = sc \<and> t = GetVotes # GetItems # t0 @ [StoreVotes vs]"
              using assms run loop vs sv by (auto simp add: seq_def port_def ret_def)
            then show ?thesis using sv Inr t0 by auto
          qed
        qed
      qed
    qed
  qed
qed

lemma vote_list_leaves_cached:
  assumes "serves_stored_votes (storage self)" and "vote_list self s = (Inr votes, t, s1)"
  shows "cached (storage self) s1 votes"
  using vote_list_returns [OF assms(2)] assms(1)
  unfolding serves_stored_votes_def by blast

lemma vote_list_cached:
  assumes "cached (storage self) s votes"
  shows "fst (vote_list self s) = Inr votes \<and> fst (snd (vote_list self s)) = [GetVotes]
    \<and> snd (snd (vote_list self s)) = snd (get_votes (storage self) s)"
proof -
  have "get_votes (storage self) s = (Inr (Some votes), snd (get_votes (storage self) s))"
    using assms unfolding cached_def by (metis prod.collapse)
  then show ?thesis
    using vote_list_hit by fastforce
qed

lemma vote_list_one_walk:
  assumes "vote_list self s = (Inr votes, t, s1)"
  shows "count_list t GetItems \<le> 1"
  using vote_list_returns [OF assms] walk_no_get_items by auto


lemma memory_serves_stored_votes: "serves_stored_votes memory_storage"
  by (simp add: serves_stored_votes_def cached_def memory_storage_def)

lemma article_first_run:
  "vote_list (ArticleProvider memory_storage) (empty_memory :: (string, int) memory) =
     (Inr [(''U1'', ''A1@|'', 5), (''U2'', ''A1@|'', 4), (''U1'', ''A2@|'', 3), (''U2'', ''A3@|'', 5)],
      fst (snd (vote_list (ArticleProvider memory_storage) (empty_memory :: (string, int) memory))),
      empty_memory \<lparr> votes_cache :=
        Some [(''U1'', ''A1@|'', 5), (''U2'', ''A1@|'', 4), (''U1'', ''A2@|'', 3),
              (''U2'', ''A3@|'', 5)] \<rparr>)"
  by (simp add: prod_eq_iff vote_list_def item_votes_def
      rating_vote_def attr_id_def seq_def port_def call_def ret_def ArticleProvider_def
      RecommendationProvider_def memory_storage_def empty_memory_def article_ratings_def)


text \<open>
  C4. When \<^verbatim>\<open>get_votes\<close> returns a list, \<^verbatim>\<open>vote_list\<close> returns that list and
  \<^verbatim>\<open>get_votes\<close> is the only call it makes: no extraction method, no
  \<^verbatim>\<open>store_votes\<close>, and the storage is left as \<^verbatim>\<open>get_votes\<close> left it. Hence, with
  a storage that serves what was stored or served before (no invalidation in
  between), a call of \<^verbatim>\<open>vote_list\<close> that follows one that returned is a cache hit
  with the same list, and the two calls together call \<^verbatim>\<open>get_items\<close> at most once.
\<close>

theorem vote_list_cache_hit:
  "(get_votes (storage self) s = (Inr (Some cached_votes), s1) \<longrightarrow>
      vote_list self s = (Inr cached_votes, [GetVotes], s1))
   \<and> (serves_stored_votes (storage self) \<longrightarrow> vote_list self s0 = (Inr votes, t, s') \<longrightarrow>
        fst (vote_list self s') = Inr votes
        \<and> fst (snd (vote_list self s')) = [GetVotes]
        \<and> count_list (t @ fst (snd (vote_list self s'))) GetItems \<le> 1)"
proof (intro conjI impI)
  assume "get_votes (storage self) s = (Inr (Some cached_votes), s1)"
  then show "vote_list self s = (Inr cached_votes, [GetVotes], s1)"
    by (rule vote_list_hit)
next
  assume law: "serves_stored_votes (storage self)" and run: "vote_list self s0 = (Inr votes, t, s')"
  have c: "cached (storage self) s' votes"
    using law run by (rule vote_list_leaves_cached)
  show "fst (vote_list self s') = Inr votes"
    using vote_list_cached [OF c] by simp
  show "fst (snd (vote_list self s')) = [GetVotes]"
    using vote_list_cached [OF c] by simp
  then show "count_list (t @ fst (snd (vote_list self s'))) GetItems \<le> 1"
    using vote_list_one_walk [OF run] by simp
qed


theorem vote_list_cache_hit_witness:
  "vote_list (ArticleProvider memory_storage)
      ((empty_memory :: (string, int) memory) \<lparr> votes_cache := Some [(''U1'', ''A1@|'', 5)] \<rparr>) =
     (Inr [(''U1'', ''A1@|'', 5)], [GetVotes],
      empty_memory \<lparr> votes_cache := Some [(''U1'', ''A1@|'', 5)] \<rparr>)
   \<and> fst (vote_list (ArticleProvider memory_storage)
        ((empty_memory :: (string, int) memory) \<lparr> votes_cache :=
          Some [(''U1'', ''A1@|'', 5), (''U2'', ''A1@|'', 4), (''U1'', ''A2@|'', 3),
                (''U2'', ''A3@|'', 5)] \<rparr>)) =
     Inr [(''U1'', ''A1@|'', 5), (''U2'', ''A1@|'', 4), (''U1'', ''A2@|'', 3), (''U2'', ''A3@|'', 5)]
   \<and> fst (snd (vote_list (ArticleProvider memory_storage)
        ((empty_memory :: (string, int) memory) \<lparr> votes_cache :=
          Some [(''U1'', ''A1@|'', 5), (''U2'', ''A1@|'', 4), (''U1'', ''A2@|'', 3),
                (''U2'', ''A3@|'', 5)] \<rparr>))) = [GetVotes]"
proof -
  have law: "serves_stored_votes (storage (ArticleProvider
      (memory_storage :: (string, string, int, (string, int) memory) storage_port)))"
    by (simp add: ArticleProvider_def RecommendationProvider_def memory_serves_stored_votes)
  have hit: "get_votes (storage (ArticleProvider memory_storage))
      ((empty_memory :: (string, int) memory) \<lparr> votes_cache := Some [(''U1'', ''A1@|'', 5)] \<rparr>) =
      (Inr (Some [(''U1'', ''A1@|'', 5)]),
       empty_memory \<lparr> votes_cache := Some [(''U1'', ''A1@|'', 5)] \<rparr>)"
    by (simp add: ArticleProvider_def RecommendationProvider_def memory_storage_def)
  note inst = vote_list_cache_hit [where self = "ArticleProvider memory_storage"
      and s = "(empty_memory :: (string, int) memory) \<lparr> votes_cache := Some [(''U1'', ''A1@|'', 5)] \<rparr>"
      and cached_votes = "[(''U1'', ''A1@|'', 5)]"
      and ?s1.0 = "empty_memory \<lparr> votes_cache := Some [(''U1'', ''A1@|'', 5)] \<rparr>"
      and ?s0.0 = empty_memory
      and votes = "[(''U1'', ''A1@|'', 5), (''U2'', ''A1@|'', 4), (''U1'', ''A2@|'', 3),
                    (''U2'', ''A3@|'', 5)]"
      and t = "fst (snd (vote_list (ArticleProvider memory_storage)
                 (empty_memory :: (string, int) memory)))"
      and s' = "empty_memory \<lparr> votes_cache :=
        Some [(''U1'', ''A1@|'', 5), (''U2'', ''A1@|'', 4), (''U1'', ''A2@|'', 3),
              (''U2'', ''A3@|'', 5)] \<rparr>"]
  show ?thesis
    using inst law hit article_first_run by simp
qed

section \<open>The deletion hook\<close>

text \<open>
  C9. \<^verbatim>\<open>pre_delete(sender, instance)\<close> submits exactly two background jobs, first the
  removal of the cached similarities and then the removal of the cached suggestions,
  each with the model path of the sender and the id of the deleted instance; it makes
  no call of the storage object or of any other method, leaves the storage as it was,
  and returns.
\<close>

theorem pre_delete_enqueues_two_jobs:
  "pre_delete model_path self sender inst s =
     (Inr (),
      [Delay (RemoveSimilarities (model_path sender) (instance_id inst)),
       Delay (RemoveSuggestions (model_path sender) (instance_id inst))],
      s)"
  by (simp add: pre_delete_def seq_def emit_def)


section \<open>Registration and lookup\<close>

lemma map_of_fold_update:
  "map_of (fold (\<lambda>model. AList.update (mp model) ref) models al) k =
     (if k \<in> mp ` set models then Some ref else map_of al k)"
  by (induction models arbitrary: al) (auto simp add: update_conv')

lemma register_instances:
  "instances (snd (register mp imp reg vote_model content_models Provider)) =
     instances reg @ [Provider (registry_storage reg)]"
  by (simp add: register_def Let_def split: prod.splits)

lemma register_storage:
  "registry_storage (snd (register mp imp reg vote_model content_models Provider)) =
     registry_storage reg"
  by (simp add: register_def Let_def split: prod.splits)

lemma register_vote_providers:
  "map_of (vote_providers (snd (register mp imp reg vote_model content_models Provider))) k =
     (if k = mp vote_model then Some (length (instances reg)) else map_of (vote_providers reg) k)"
  by (simp add: register_def Let_def update_conv' split: prod.splits)

lemma register_content_providers:
  "map_of (content_providers (snd (register mp imp reg vote_model content_models Provider))) k =
     (if k \<in> mp ` set content_models then Some (length (instances reg))
      else map_of (content_providers reg) k)"
  by (simp add: register_def Let_def map_of_fold_update split: prod.splits)

lemma connect_signals_ok:
  assumes "\<forall>path. SignalPath path \<in> set signals \<longrightarrow> (\<exists>sg. imp path = Inr sg)"
  shows "fst (connect_signals imp ref inst content_models signals conns) = Inr ()"
  using assms
proof (induction signals arbitrary: conns)
  case Nil
  show ?case by simp
next
  case (Cons signal signals)
  have "\<exists>conns'. connect_signal imp ref inst content_models signal conns = Inr conns'"
  proof (cases signal)
    case (SignalPath p)
    then have "\<exists>sg. imp p = Inr sg"
      using Cons.prems by simp
    then show ?thesis
      using SignalPath by (auto simp add: connect_signal_def)
  next
    case SignalObject
    then show ?thesis by (simp add: connect_signal_def)
  qed
  then obtain conns' where
    "connect_signal imp ref inst content_models signal conns = Inr conns'" ..
  moreover have "fst (connect_signals imp ref inst content_models signals conns') = Inr ()"
    using Cons by simp
  ultimately show ?case by simp
qed

lemma register_returns:
  assumes "\<forall>path. SignalPath path \<in> set (rate_signals (Provider (registry_storage reg)))
      \<longrightarrow> (\<exists>sg. imp path = Inr sg)"
  shows "fst (register mp imp reg vote_model content_models Provider) = Inr ()"
proof -
  obtain conns where "connect_signals imp (length (instances reg))
      (Provider (registry_storage reg)) content_models
      (rate_signals (Provider (registry_storage reg)))
      (connections reg) = (Inr (), conns)"
    using connect_signals_ok [OF assms] by (metis prod.collapse)
  then show ?thesis
    by (simp add: register_def Let_def)
qed


lemma registrations_keep_unregistered:
  assumes "\<forall>(vote_model, content_models, Provider) \<in> set calls.
      mp vote_model \<noteq> k \<and> (\<forall>c\<in>set content_models. mp c \<noteq> k)"
    and "map_of (vote_providers reg) k = None"
    and "map_of (content_providers reg) k = None"
  shows "map_of (vote_providers (registrations mp imp reg calls)) k = None
    \<and> map_of (content_providers (registrations mp imp reg calls)) k = None"
  using assms
proof (induction calls arbitrary: reg)
  case Nil
  then show ?case by simp
next
  case (Cons call calls)
  obtain vote_model content_models Provider where
    call: "call = (vote_model, content_models, Provider)"
    by (cases call) auto
  have here: "mp vote_model \<noteq> k" "k \<notin> mp ` set content_models"
    using Cons.prems(1) call by auto
  have "map_of (vote_providers (snd (register mp imp reg vote_model content_models Provider))) k
      = None"
    using here Cons.prems(2) by (simp add: register_vote_providers)
  moreover have
    "map_of (content_providers (snd (register mp imp reg vote_model content_models Provider))) k
      = None"
    using here Cons.prems(3) by (simp add: register_content_providers)
  moreover have "\<forall>(vote_model, content_models, Provider) \<in> set calls.
      mp vote_model \<noteq> k \<and> (\<forall>c\<in>set content_models. mp c \<noteq> k)"
    using Cons.prems(1) by simp
  ultimately show ?case
    using Cons.IH call by simp
qed


text \<open>
  C6. A call of \<^verbatim>\<open>register\<close> creates exactly one provider object, the instance of
  the class it is given, and after the call the lookup of the vote model and the lookup
  of every one of the content models return that same object.
\<close>

theorem register_single_instance:
  assumes "reg' = snd (register mp imp reg vote_model content_models Provider)"
  shows "instances reg' = instances reg @ [Provider (registry_storage reg)]
    \<and> get_provider_for_vote mp reg' vote_model = Inr (length (instances reg))
    \<and> (\<forall>c\<in>set content_models.
          get_provider_for_content mp reg' c = Inr (length (instances reg)))"
  unfolding assms
  by (simp add: register_instances get_provider_for_vote_def get_provider_for_content_def
      register_vote_providers register_content_providers)

theorem register_single_instance_witness:
  "length (instances (snd (register app_model_path import_signal article_registry
      ''Vote'' [''Article'', ''Video''] ArticleProvider))) = 1
   \<and> get_provider_for_vote app_model_path (snd (register app_model_path import_signal
      article_registry ''Vote'' [''Article'', ''Video''] ArticleProvider)) ''Vote'' = Inr 0
   \<and> get_provider_for_content app_model_path (snd (register app_model_path import_signal
      article_registry ''Vote'' [''Article'', ''Video''] ArticleProvider)) ''Article'' = Inr 0
   \<and> get_provider_for_content app_model_path (snd (register app_model_path import_signal
      article_registry ''Vote'' [''Article'', ''Video''] ArticleProvider)) ''Video'' = Inr 0"
  using register_single_instance [where mp = app_model_path and imp = import_signal
      and reg = article_registry
      and vote_model = "''Vote''" and content_models = "[''Article'', ''Video'']"
      and Provider = ArticleProvider, OF refl]
  by (simp add: article_registry_def RecommendationProviderRegistry_def)


text \<open>
  C5. After two successive calls of \<^verbatim>\<open>register\<close> for the same vote model, the lookup
  of that model returns the object the second call created, an instance of the second
  class, and so does the content lookup of every content model of the second call. A
  call of \<^verbatim>\<open>register\<close> raises only when a signal of the class cannot be imported:
  when those of both classes can be, neither call raises, in particular not because the
  model is registered already.
\<close>

theorem last_registration_wins:
  assumes "reg1 = snd (register mp imp reg D content_models1 Provider1)"
    and "reg2 = snd (register mp imp reg1 D content_models2 Provider2)"
  shows "get_provider_for_vote mp reg2 D = Inr (Suc (length (instances reg)))
    \<and> instances reg2 ! Suc (length (instances reg)) = Provider2 (registry_storage reg)
    \<and> (\<forall>c\<in>set content_models2.
          get_provider_for_content mp reg2 c = Inr (Suc (length (instances reg))))
    \<and> ((\<forall>path. SignalPath path \<in> set (rate_signals (Provider1 (registry_storage reg)))
                  \<union> set (rate_signals (Provider2 (registry_storage reg)))
            \<longrightarrow> (\<exists>sg. imp path = Inr sg)) \<longrightarrow>
        fst (register mp imp reg D content_models1 Provider1) = Inr ()
        \<and> fst (register mp imp reg1 D content_models2 Provider2) = Inr ())"
proof (intro conjI impI)
  have len: "length (instances reg1) = Suc (length (instances reg))"
    unfolding assms(1) by (simp add: register_instances)
  have sto: "registry_storage reg1 = registry_storage reg"
    unfolding assms(1) by (simp add: register_storage)
  show "get_provider_for_vote mp reg2 D = Inr (Suc (length (instances reg)))"
    unfolding assms(2) by (simp add: get_provider_for_vote_def register_vote_providers len)
  show "instances reg2 ! Suc (length (instances reg)) = Provider2 (registry_storage reg)"
    unfolding assms(2) using len sto by (simp add: register_instances nth_append)
  show "\<forall>c\<in>set content_models2.
      get_provider_for_content mp reg2 c = Inr (Suc (length (instances reg)))"
    unfolding assms(2)
    by (simp add: get_provider_for_content_def register_content_providers len)
next
  assume importable: "\<forall>path. SignalPath path \<in> set (rate_signals (Provider1 (registry_storage reg)))
                  \<union> set (rate_signals (Provider2 (registry_storage reg)))
            \<longrightarrow> (\<exists>sg. imp path = Inr sg)"
  show "fst (register mp imp reg D content_models1 Provider1) = Inr ()"
    using importable by (intro register_returns) simp
next
  assume importable: "\<forall>path. SignalPath path \<in> set (rate_signals (Provider1 (registry_storage reg)))
                  \<union> set (rate_signals (Provider2 (registry_storage reg)))
            \<longrightarrow> (\<exists>sg. imp path = Inr sg)"
  have sto: "registry_storage reg1 = registry_storage reg"
    unfolding assms(1) by (simp add: register_storage)
  show "fst (register mp imp reg1 D content_models2 Provider2) = Inr ()"
    using importable sto by (intro register_returns) simp
qed

theorem last_registration_wins_witness:
  "get_provider_for_vote app_model_path
     (snd (register app_model_path import_signal
        (snd (register app_model_path import_signal article_registry
                ''Vote'' [''Article''] ArticleProvider))
        ''Vote'' [''Article''] SingleSiteProvider)) ''Vote'' = Inr 1
   \<and> get_provider_for_content app_model_path
     (snd (register app_model_path import_signal
        (snd (register app_model_path import_signal article_registry
                ''Vote'' [''Article''] ArticleProvider))
        ''Vote'' [''Article''] SingleSiteProvider)) ''Article'' = Inr 1
   \<and> fst (register app_model_path import_signal article_registry
                ''Vote'' [''Article''] ArticleProvider) = Inr ()
   \<and> fst (register app_model_path import_signal
        (snd (register app_model_path import_signal article_registry
                ''Vote'' [''Article''] ArticleProvider))
        ''Vote'' [''Article''] SingleSiteProvider) = Inr ()"
proof -
  have importable: "\<forall>path. SignalPath path \<in>
      set (rate_signals (ArticleProvider (registry_storage article_registry)))
      \<union> set (rate_signals (SingleSiteProvider (registry_storage article_registry)))
      \<longrightarrow> (\<exists>sg. import_signal path = Inr sg)"
    by (simp add: SingleSiteProvider_def ArticleProvider_def RecommendationProvider_def
        import_signal_def)
  have empty: "length (instances article_registry) = 0"
    by (simp add: article_registry_def RecommendationProviderRegistry_def)
  show ?thesis
    using last_registration_wins [where mp = app_model_path and imp = import_signal
        and reg = article_registry and D = "''Vote''" and ?content_models1.0 = "[''Article'']"
        and ?Provider1.0 = ArticleProvider and ?content_models2.0 = "[''Article'']"
        and ?Provider2.0 = SingleSiteProvider, OF refl refl] importable empty
    by simp
qed


text \<open>
  C7. After any sequence of calls of \<^verbatim>\<open>register\<close> on a new registry, the lookups
  \<^verbatim>\<open>get_provider_for_vote\<close> and \<^verbatim>\<open>get_provider_for_content\<close> of a model whose path is
  the path of none of the models passed to these calls raise \<^verbatim>\<open>KeyError\<close>.
\<close>

theorem unregistered_lookup_fails:
  assumes "\<forall>(vote_model, content_models, Provider) \<in> set calls.
      mp vote_model \<noteq> mp d \<and> (\<forall>c\<in>set content_models. mp c \<noteq> mp d)"
  shows "get_provider_for_vote mp
           (registrations mp imp (RecommendationProviderRegistry S) calls) d = Inl KeyError
    \<and> get_provider_for_content mp
           (registrations mp imp (RecommendationProviderRegistry S) calls) d = Inl KeyError"
  using registrations_keep_unregistered [OF assms, of "RecommendationProviderRegistry S" imp]
  by (simp add: get_provider_for_vote_def get_provider_for_content_def
      RecommendationProviderRegistry_def)


theorem unregistered_lookup_fails_witness:
  "get_provider_for_vote app_model_path
     (registrations app_model_path import_signal
        (RecommendationProviderRegistry memory_storage)
        [(''Vote'', [''Article''], ArticleProvider)]) ''Comment'' = Inl KeyError
   \<and> get_provider_for_content app_model_path
     (registrations app_model_path import_signal
        (RecommendationProviderRegistry memory_storage)
        [(''Vote'', [''Article''], ArticleProvider)]) ''Comment'' = Inl KeyError"
  using unregistered_lookup_fails [where mp = app_model_path and imp = import_signal
      and S = memory_storage and calls = "[(''Vote'', [''Article''], ArticleProvider)]"
      and d = "''Comment''"]
  by (simp add: app_model_path_def)

section \<open>The stages of precompute\<close>

lemma stagedD:
  "staged lo hi m \<Longrightarrow> m s = (r, t, s') \<Longrightarrow>
   sorted (map stage (filter is_step t))
   \<and> list_all (\<lambda>ev. lo \<le> stage ev \<and> stage ev \<le> hi) (filter is_step t)"
  unfolding staged_def by (metis fst_conv snd_conv)

lemma staged_ret: "staged lo hi (ret x)"
  by (simp add: staged_def ret_def)

lemma staged_raise: "staged lo hi (raise e)"
  by (simp add: staged_def raise_def)

lemma staged_log: "staged lo hi (emit (LogInfo msg))"
  by (simp add: staged_def emit_def)

lemma staged_call: "lo \<le> stage ev \<Longrightarrow> stage ev \<le> hi \<Longrightarrow> staged lo hi (call ev r)"
  by (simp add: staged_def call_def split: sum.splits)

lemma staged_port: "lo \<le> stage ev \<Longrightarrow> stage ev \<le> hi \<Longrightarrow> staged lo hi (port ev f)"
  by (simp add: staged_def port_def split: sum.splits prod.splits)

lemma staged_weaken: "staged lo hi m \<Longrightarrow> lo' \<le> lo \<Longrightarrow> hi \<le> hi' \<Longrightarrow> staged lo' hi' m"
  unfolding staged_def list_all_iff by fastforce

lemma staged_seq:
  assumes "staged lo k m" and "\<And>x. staged k hi (f x)" and "lo \<le> k" and "k \<le> hi"
  shows "staged lo hi (seq m f)"
  unfolding staged_def
proof (intro allI)
  fix s
  obtain r1 t1 s1 where m: "m s = (r1, t1, s1)"
    by (metis prod.collapse)
  note a = stagedD [OF assms(1) m]
  show "sorted (map stage (filter is_step (fst (snd (seq m f s)))))
    \<and> list_all (\<lambda>ev. lo \<le> stage ev \<and> stage ev \<le> hi) (filter is_step (fst (snd (seq m f s))))"
  proof (cases r1)
    case (Inl e)
    then show ?thesis
      using a m assms(4) by (auto simp add: seq_def list_all_iff)
  next
    case (Inr x)
    obtain r2 t2 s2 where f: "f x s1 = (r2, t2, s2)"
      by (metis prod.collapse)
    note b = stagedD [OF assms(2) f]
    have "seq m f s = (r2, t1 @ t2, s2)"
      using m Inr f by (simp add: seq_def)
    then show ?thesis
      using a b assms(3) assms(4) by (fastforce simp add: sorted_append list_all_iff)
  qed
qed

lemma staged_for_each:
  assumes "\<And>x acc. staged k k (body x acc)"
  shows "staged k k (for_each xs body acc)"
proof (induction xs arbitrary: acc)
  case Nil
  show ?case by (simp add: staged_ret)
next
  case (Cons x xs)
  show ?case
    by (simp, rule staged_seq, rule assms, rule Cons) simp_all
qed

lemma staged_vote_list: "staged 1 1 (vote_list self)"
  unfolding vote_list_def item_votes_def rating_vote_def attr_id_def
  by (intro staged_seq [where k = 1] staged_port staged_call staged_for_each staged_ret)
     (auto intro!: staged_seq [where k = 1] staged_port staged_call staged_for_each staged_ret
        staged_raise split: option.splits)

lemma staged_calculate_recommendations:
  "staged 4 4 (calculate_recommendations F self votes itemMatch)"
  unfolding calculate_recommendations_def
  by (intro staged_seq [where k = 4] staged_call staged_for_each staged_ret) simp_all

lemma staged_precompute: "staged 1 5 (precompute F self given)"
proof -
  have votes: "staged 1 1 (case given of
            None \<Rightarrow> seq (emit (LogInfo ''fetching votes from the storage...'')) (\<lambda>_.
                    vote_list self)
          | Some votes \<Rightarrow> ret votes)"
  proof (cases given)
    case None
    have "staged 1 1 (seq (emit (LogInfo ''fetching votes from the storage...'')) (\<lambda>_.
        vote_list self))"
      by (rule staged_seq [where k = 1, OF staged_log staged_vote_list]) simp_all
    then show ?thesis
      using None by simp
  next
    case (Some votes)
    show ?thesis
      unfolding Some by (simp add: staged_ret del: One_nat_def)
  qed
  show ?thesis
    unfolding precompute_def calculate_similarities_def
    apply (rule staged_seq [where k = 1, OF votes])
      apply (rule staged_seq [where k = 2, OF staged_log])
        apply (rule staged_seq [where k = 2])
           apply (rule staged_call; simp)
          apply (rule staged_seq [where k = 3, OF staged_log])
            apply (rule staged_seq [where k = 3])
               apply (rule staged_port; simp)
              apply (rule staged_seq [where k = 4, OF staged_log])
                apply (rule staged_seq [where k = 4])
                   apply (rule staged_weaken [OF staged_calculate_recommendations]; simp)
                  apply (rule staged_port; simp)
                 apply simp_all
    done
qed


lemma ends_wellD: "ends_well m \<Longrightarrow> m s = (r, t, s') \<Longrightarrow> well_ended r t"
  unfolding ends_well_def by (metis fst_conv snd_conv)

lemma ends_well_ret: "ends_well (ret x)"
  by (simp add: ends_well_def well_ended_def ret_def)

lemma ends_well_raise: "ends_well (raise e)"
  by (simp add: ends_well_def well_ended_def raise_def)

lemma ends_well_emit: "\<not> is_raised ev \<Longrightarrow> ends_well (emit ev)"
  by (simp add: ends_well_def well_ended_def emit_def)

lemma ends_well_call: "\<not> is_raised ev \<Longrightarrow> ends_well (call ev r)"
  by (simp add: ends_well_def well_ended_def call_def split: sum.splits)

lemma ends_well_port: "\<not> is_raised ev \<Longrightarrow> ends_well (port ev f)"
  by (simp add: ends_well_def well_ended_def port_def split: sum.splits prod.splits)

lemma ends_well_seq:
  assumes "ends_well m" and "\<And>x. ends_well (f x)"
  shows "ends_well (seq m f)"
  unfolding ends_well_def
proof
  fix s
  obtain r1 t1 s1 where m: "m s = (r1, t1, s1)"
    by (metis prod.collapse)
  note a = ends_wellD [OF assms(1) m]
  show "well_ended (fst (seq m f s)) (fst (snd (seq m f s)))"
  proof (cases r1)
    case (Inl e)
    then show ?thesis using a m by (simp add: seq_def well_ended_def)
  next
    case (Inr x)
    obtain r2 t2 s2 where f: "f x s1 = (r2, t2, s2)"
      by (metis prod.collapse)
    note b = ends_wellD [OF assms(2) f]
    have run: "seq m f s = (r2, t1 @ t2, s2)"
      using m Inr f by (simp add: seq_def)
    have clean: "\<not> list_ex is_raised t1"
      using a Inr by (simp add: well_ended_def)
    show ?thesis
    proof (cases r2)
      case (Inl e)
      then have "t2 \<noteq> []" "last t2 = Raised e" "\<not> list_ex is_raised (butlast t2)"
        using b by (simp_all add: well_ended_def)
      then show ?thesis
        using run Inl clean by (simp add: well_ended_def butlast_append)
    next
      case (Inr y)
      then show ?thesis
        using run b clean by (simp add: well_ended_def)
    qed
  qed
qed

lemma ends_well_for_each:
  assumes "\<And>x acc. ends_well (body x acc)"
  shows "ends_well (for_each xs body acc)"
proof (induction xs arbitrary: acc)
  case Nil
  show ?case by (simp add: ends_well_ret)
next
  case (Cons x xs)
  show ?case
    by (simp, rule ends_well_seq, rule assms, rule Cons)
qed

lemma ends_well_attr_id: "ends_well (attr_id x)"
  by (cases x) (simp_all add: attr_id_def ends_well_raise ends_well_ret)

lemma ends_well_vote_list: "ends_well (vote_list self)"
proof -
  have inner: "ends_well (rating_vote self item r votes)" for item r votes
    unfolding rating_vote_def
    by (intro ends_well_seq ends_well_call ends_well_attr_id ends_well_ret) simp_all
  have outer: "ends_well (item_votes self item votes)" for item votes
    unfolding item_votes_def
    by (intro ends_well_seq ends_well_call ends_well_for_each inner) simp
  have miss: "ends_well (seq (call GetItems (get_items self)) (\<lambda>items.
         seq (for_each items (item_votes self) []) (\<lambda>votes.
         seq (port (StoreVotes votes) (store_votes (storage self) votes)) (\<lambda>_.
         ret votes))))"
    by (intro ends_well_seq ends_well_call ends_well_port ends_well_for_each outer ends_well_ret)
      simp_all
  show ?thesis
    unfolding vote_list_def
  proof (rule ends_well_seq)
    show "ends_well (port GetVotes (get_votes (storage self)))"
      by (rule ends_well_port) simp
    show "ends_well (case x of None \<Rightarrow>
         seq (call GetItems (get_items self)) (\<lambda>items.
         seq (for_each items (item_votes self) []) (\<lambda>votes.
         seq (port (StoreVotes votes) (store_votes (storage self) votes)) (\<lambda>_.
         ret votes))) | Some votes \<Rightarrow> ret votes)" for x
      by (cases x) (simp_all add: miss ends_well_ret)
  qed
qed

lemma ends_well_calculate_recommendations:
  "ends_well (calculate_recommendations F self votes itemMatch)"
  unfolding calculate_recommendations_def
  by (intro ends_well_seq ends_well_call ends_well_for_each ends_well_ret) simp_all

lemma ends_well_precompute: "ends_well (precompute F self given)"
proof -
  have votes: "ends_well (case given of
            None \<Rightarrow> seq (emit (LogInfo ''fetching votes from the storage...'')) (\<lambda>_.
                    vote_list self)
          | Some votes \<Rightarrow> ret votes)"
    by (cases given)
      (simp_all add: ends_well_seq ends_well_emit ends_well_vote_list ends_well_ret)
  show ?thesis
    unfolding precompute_def calculate_similarities_def
    by (intro ends_well_seq votes ends_well_emit ends_well_call ends_well_port
        ends_well_calculate_recommendations) simp_all
qed


section \<open>Running precompute again\<close>

lemma seq_returns:
  assumes "seq m f s = (Inr y, t, s')"
  obtains x t1 s1 t2 where "m s = (Inr x, t1, s1)" and "f x s1 = (Inr y, t2, s')"
    and "t = t1 @ t2"
proof -
  obtain r1 t1 s1 where m: "m s = (r1, t1, s1)"
    by (metis prod.collapse)
  show ?thesis
  proof (cases r1)
    case (Inl e)
    then show ?thesis using assms m by (simp add: seq_def)
  next
    case (Inr x)
    obtain r2 t2 s2 where f: "f x s1 = (r2, t2, s2)"
      by (metis prod.collapse)
    then have "r2 = Inr y" "t = t1 @ t2" "s2 = s'"
      using assms m Inr by (simp_all add: seq_def)
    then show ?thesis
      using that m Inr f by simp
  qed
qed

lemma call_returns:
  "call ev r s = (Inr x, t, s') \<Longrightarrow> r = Inr x \<and> t = [ev] \<and> s' = s"
  by (cases r) (auto simp add: call_def)

lemma port_returns:
  "port ev f s = (Inr x, t, s') \<Longrightarrow> f s = (Inr x, s') \<and> t = [ev]"
  by (auto simp add: port_def split: prod.splits sum.splits)

lemma emit_returns: "emit ev s = (r, t, s') \<Longrightarrow> t = [ev] \<and> s' = s"
  by (auto simp add: emit_def)

lemma statelessD: "stateless m \<Longrightarrow> m s = (r, t, s') \<Longrightarrow> s' = s \<and> m s0 = (r, t, s0)"
  unfolding stateless_def by (metis prod.inject)

lemma stateless_ret: "stateless (ret x)"
  unfolding stateless_def ret_def by blast

lemma stateless_call: "stateless (call ev r)"
  unfolding stateless_def call_def by (cases r) auto

lemma stateless_seq:
  assumes "stateless m" and "\<And>x. stateless (f x)"
  shows "stateless (seq m f)"
proof -
  obtain r t where m: "\<And>s. m s = (r, t, s)"
    using assms(1) unfolding stateless_def by blast
  show ?thesis
  proof (cases r)
    case (Inl e)
    then have "\<forall>s. seq m f s = (Inl e, t, s)"
      using m by (simp add: seq_def)
    then show ?thesis unfolding stateless_def by blast
  next
    case (Inr x)
    obtain r2 t2 where f: "\<And>s. f x s = (r2, t2, s)"
      using assms(2) unfolding stateless_def by blast
    have "\<forall>s. seq m f s = (r2, t @ t2, s)"
      using m Inr f by (simp add: seq_def)
    then show ?thesis unfolding stateless_def by blast
  qed
qed

lemma stateless_for_each:
  assumes "\<And>x acc. stateless (body x acc)"
  shows "stateless (for_each xs body acc)"
proof (induction xs arbitrary: acc)
  case Nil
  show ?case by (simp add: stateless_ret)
next
  case (Cons x xs)
  show ?case
    by (simp, rule stateless_seq, rule assms, rule Cons)
qed

lemma stateless_calculate_recommendations:
  "stateless (calculate_recommendations F self votes itemMatch)"
  unfolding calculate_recommendations_def
  by (intro stateless_seq stateless_call stateless_for_each stateless_ret)

lemma nothing_stored:
  "list_all (\<lambda>ev. stage ev \<noteq> 3 \<and> stage ev \<noteq> 5) (filter is_step t) \<Longrightarrow>
   stored_similarities t = [] \<and> stored_recommendations t = []"
proof (induction t)
  case Nil
  show ?case by simp
next
  case (Cons ev t)
  then show ?case by (cases ev) simp_all
qed

lemma vote_list_stores_no_artifact:
  assumes "vote_list self s = (r, t, s')"
  shows "stored_similarities t = [] \<and> stored_recommendations t = []"
proof (rule nothing_stored)
  have "list_all (\<lambda>ev. 1 \<le> stage ev \<and> stage ev \<le> 1) (filter is_step t)"
    using stagedD [OF staged_vote_list assms] by simp
  then show "list_all (\<lambda>ev. stage ev \<noteq> 3 \<and> stage ev \<noteq> 5) (filter is_step t)"
    unfolding list_all_iff by fastforce
qed

lemma calculate_recommendations_stores_no_artifact:
  assumes "calculate_recommendations F self votes itemMatch s = (r, t, s')"
  shows "stored_similarities t = [] \<and> stored_recommendations t = []"
proof (rule nothing_stored)
  have "list_all (\<lambda>ev. 4 \<le> stage ev \<and> stage ev \<le> 4) (filter is_step t)"
    using stagedD [OF staged_calculate_recommendations assms] by simp
  then show "list_all (\<lambda>ev. stage ev \<noteq> 3 \<and> stage ev \<noteq> 5) (filter is_step t)"
    unfolding list_all_iff by fastforce
qed

lemma stored_similarities_append:
  "stored_similarities (t @ t') = stored_similarities t @ stored_similarities t'"
  by (induction t rule: stored_similarities.induct) simp_all

lemma stored_recommendations_append:
  "stored_recommendations (t @ t') = stored_recommendations t @ stored_recommendations t'"
  by (induction t rule: stored_recommendations.induct) simp_all

lemma resolve_returns:
  assumes "(case given of
            None \<Rightarrow> seq (emit (LogInfo ''fetching votes from the storage...'')) (\<lambda>_.
                    vote_list self)
          | Some votes \<Rightarrow> ret votes) s = (Inr votes, t, s')"
  shows "stored_similarities t = [] \<and> stored_recommendations t = []
    \<and> (case given of Some v \<Rightarrow> v = votes \<and> s' = s
        | None \<Rightarrow> \<exists>t'. vote_list self s = (Inr votes, t', s'))"
proof (cases given)
  case None
  then have "seq (emit (LogInfo ''fetching votes from the storage...'')) (\<lambda>_. vote_list self) s
      = (Inr votes, t, s')"
    using assms by simp
  then obtain t' where "vote_list self s = (Inr votes, t', s')"
      and "t = LogInfo ''fetching votes from the storage...'' # t'"
    by (auto simp add: seq_def emit_def split: prod.splits)
  then show ?thesis
    using None vote_list_stores_no_artifact by fastforce
next
  case (Some v)
  then show ?thesis
    using assms by (simp add: ret_def)
qed

lemma calculate_recommendations_state:
  assumes "calculate_recommendations F self votes itemMatch s = (r, t, s')"
  shows "s' = s \<and> calculate_recommendations F self votes itemMatch s0 = (r, t, s0)"
  using stateless_calculate_recommendations assms by (rule statelessD)

lemma precompute_returns:
  assumes "precompute F self given s = (Inr (), t, s')"
  shows "\<exists>votes sv im s3 recs t0 trec.
    (case given of
            None \<Rightarrow> seq (emit (LogInfo ''fetching votes from the storage...'')) (\<lambda>_.
                    vote_list self)
          | Some votes \<Rightarrow> ret votes) s = (Inr votes, t0, sv)
    \<and> calculate_similar_items F votes (similarity self) = Inr im
    \<and> store_similarities (storage self) im sv = (Inr (), s3)
    \<and> calculate_recommendations F self votes im s3 = (Inr recs, trec, s3)
    \<and> store_recommendations (storage self) recs s3 = (Inr (), s')
    \<and> stored_similarities t = [im] \<and> stored_recommendations t = [recs]"
  using assms unfolding precompute_def calculate_similarities_def
  apply (elim seq_returns)
  apply (clarsimp dest!: emit_returns call_returns port_returns)
  subgoal for votes t1 s1 im s3 recs trec s4
    using calculate_recommendations_state [where F = F and self = self and votes = votes
          and itemMatch = im and s = s3 and r = "Inr recs" and t = trec and s' = s4
          and ?s0.0 = s3]
      resolve_returns [where given = given and self = self and s = s and votes = votes
          and t = t1 and s' = s1]
      calculate_recommendations_stores_no_artifact [where F = F and self = self
          and votes = votes and itemMatch = im and s = s3 and r = "Inr recs" and t = trec
          and s' = s4]
    by (auto simp add: stored_similarities_append stored_recommendations_append)
  done



lemma memory_stores_keep_votes: "stores_keep_votes memory_storage"
  by (simp add: stores_keep_votes_def cached_def memory_storage_def)

lemma article_precompute_first:
  "precompute plain_filtering (ArticleProvider memory_storage) None
      (empty_memory :: (string, int) memory) =
     (Inr (),
      fst (snd (precompute plain_filtering (ArticleProvider memory_storage) None
        (empty_memory :: (string, int) memory))),
      \<lparr> votes_cache = Some [(''U1'', ''A1@|'', 5), (''U2'', ''A1@|'', 4), (''U1'', ''A2@|'', 3),
                             (''U2'', ''A3@|'', 5)],
        similarities_store = Some [(''A1@|'', []), (''A1@|'', []), (''A2@|'', []), (''A3@|'', [])],
        recommendations_store = Some [(''U1'', [(''A1@|'', 4), (''A3@|'', 5)]),
                                      (''U2'', [(''A1@|'', 5), (''A2@|'', 3)])] \<rparr>)"
  by (simp add: prod_eq_iff precompute_def calculate_similarities_def
      calculate_recommendations_def vote_list_def item_votes_def rating_vote_def attr_id_def
      seq_def port_def call_def ret_def emit_def ArticleProvider_def RecommendationProvider_def
      memory_storage_def empty_memory_def plain_filtering_def article_ratings_def)

lemma article_precompute_second:
  "fst (precompute plain_filtering (ArticleProvider memory_storage) None
      \<lparr> votes_cache = Some [(''U1'', ''A1@|'', 5), (''U2'', ''A1@|'', 4), (''U1'', ''A2@|'', 3),
                             (''U2'', ''A3@|'', 5)],
        similarities_store = Some [(''A1@|'', []), (''A1@|'', []), (''A2@|'', []), (''A3@|'', [])],
        recommendations_store = Some [(''U1'', [(''A1@|'', 4), (''A3@|'', 5)]),
                                      (''U2'', [(''A1@|'', 5), (''A2@|'', 3)])] \<rparr>) = Inr ()"
  by (simp add: precompute_def calculate_similarities_def
      calculate_recommendations_def vote_list_def
      seq_def port_def call_def ret_def emit_def ArticleProvider_def RecommendationProvider_def
      memory_storage_def plain_filtering_def)



text \<open>
  C10. With the extraction methods and the filtering functions being functions of
  their arguments (the domain's data is unchanged) and a storage that does not
  invalidate the vote list, a run of \<^verbatim>\<open>precompute\<close> that returns, followed by a second
  run on the storage the first one left that returns too, hands the same similarities
  and the same recommendations to the storage object: each run stores exactly one
  artifact of each kind, and they are equal.
\<close>

theorem precompute_rerun_stores_same:
  assumes "serves_stored_votes (storage self)" and "stores_keep_votes (storage self)"
    and "precompute F self given s0 = (Inr (), t1, s1)"
    and "precompute F self given s1 = (Inr (), t2, s2)"
  shows "stored_similarities t2 = stored_similarities t1
    \<and> stored_recommendations t2 = stored_recommendations t1
    \<and> length (stored_similarities t1) = 1 \<and> length (stored_recommendations t1) = 1"
proof -
  obtain votes sv im s3 recs ta trec where
    resolve1: "(case given of
            None \<Rightarrow> seq (emit (LogInfo ''fetching votes from the storage...'')) (\<lambda>_.
                    vote_list self)
          | Some votes \<Rightarrow> ret votes) s0 = (Inr votes, ta, sv)"
    and sim1: "calculate_similar_items F votes (similarity self) = Inr im"
    and store_sim1: "store_similarities (storage self) im sv = (Inr (), s3)"
    and rec1: "calculate_recommendations F self votes im s3 = (Inr recs, trec, s3)"
    and store_rec1: "store_recommendations (storage self) recs s3 = (Inr (), s1)"
    and stored1: "stored_similarities t1 = [im]" "stored_recommendations t1 = [recs]"
    using precompute_returns [OF assms(3)] by blast
  obtain votes' sv' im' s3' recs' ta' trec' where
    resolve2: "(case given of
            None \<Rightarrow> seq (emit (LogInfo ''fetching votes from the storage...'')) (\<lambda>_.
                    vote_list self)
          | Some votes \<Rightarrow> ret votes) s1 = (Inr votes', ta', sv')"
    and sim2: "calculate_similar_items F votes' (similarity self) = Inr im'"
    and rec2: "calculate_recommendations F self votes' im' s3' = (Inr recs', trec', s3')"
    and stored2: "stored_similarities t2 = [im']" "stored_recommendations t2 = [recs']"
    using precompute_returns [OF assms(4)] by blast
  have same_votes: "votes' = votes"
  proof (cases given)
    case None
    obtain tv where run1: "vote_list self s0 = (Inr votes, tv, sv)"
      using resolve_returns [OF resolve1] None by auto
    have "cached (storage self) sv votes"
      using assms(1) run1 by (rule vote_list_leaves_cached)
    then have "cached (storage self) s3 votes"
      using assms(2) store_sim1 unfolding stores_keep_votes_def by blast
    then have "cached (storage self) s1 votes"
      using assms(2) store_rec1 unfolding stores_keep_votes_def by blast
    then have "fst (vote_list self s1) = Inr votes"
      by (rule vote_list_cached [THEN conjunct1])
    moreover obtain tv' where "vote_list self s1 = (Inr votes', tv', sv')"
      using resolve_returns [OF resolve2] None by auto
    ultimately show ?thesis by simp
  next
    case (Some v)
    then show ?thesis
      using resolve_returns [OF resolve1] resolve_returns [OF resolve2] by simp
  qed
  have same_sim: "im' = im"
    using sim1 sim2 same_votes by simp
  have "calculate_recommendations F self votes im s3' = (Inr recs, trec, s3')"
    using calculate_recommendations_state [OF rec1] by simp
  then have same_rec: "recs' = recs"
    using rec2 same_votes same_sim by simp
  show ?thesis
    using stored1 stored2 same_sim same_rec by simp
qed

theorem precompute_rerun_stores_same_witness:
  "stored_similarities (fst (snd (precompute plain_filtering (ArticleProvider memory_storage) None
      \<lparr> votes_cache = Some [(''U1'', ''A1@|'', 5), (''U2'', ''A1@|'', 4), (''U1'', ''A2@|'', 3),
                             (''U2'', ''A3@|'', 5)],
        similarities_store = Some [(''A1@|'', []), (''A1@|'', []), (''A2@|'', []), (''A3@|'', [])],
        recommendations_store = Some [(''U1'', [(''A1@|'', 4), (''A3@|'', 5)]),
                                      (''U2'', [(''A1@|'', 5), (''A2@|'', 3)])] \<rparr>))) =
   stored_similarities (fst (snd (precompute plain_filtering (ArticleProvider memory_storage) None
      (empty_memory :: (string, int) memory))))
   \<and> stored_recommendations (fst (snd (precompute plain_filtering
      (ArticleProvider memory_storage) None
      \<lparr> votes_cache = Some [(''U1'', ''A1@|'', 5), (''U2'', ''A1@|'', 4), (''U1'', ''A2@|'', 3),
                             (''U2'', ''A3@|'', 5)],
        similarities_store = Some [(''A1@|'', []), (''A1@|'', []), (''A2@|'', []), (''A3@|'', [])],
        recommendations_store = Some [(''U1'', [(''A1@|'', 4), (''A3@|'', 5)]),
                                      (''U2'', [(''A1@|'', 5), (''A2@|'', 3)])] \<rparr>))) =
   stored_recommendations (fst (snd (precompute plain_filtering
      (ArticleProvider memory_storage) None (empty_memory :: (string, int) memory))))
   \<and> length (stored_similarities (fst (snd (precompute plain_filtering
      (ArticleProvider memory_storage) None (empty_memory :: (string, int) memory))))) = 1
   \<and> length (stored_recommendations (fst (snd (precompute plain_filtering
      (ArticleProvider memory_storage) None (empty_memory :: (string, int) memory))))) = 1"
proof -
  have serves: "serves_stored_votes (storage (ArticleProvider
      (memory_storage :: (string, string, int, (string, int) memory) storage_port)))"
    by (simp add: ArticleProvider_def RecommendationProvider_def memory_serves_stored_votes)
  have keeps: "stores_keep_votes (storage (ArticleProvider
      (memory_storage :: (string, string, int, (string, int) memory) storage_port)))"
    by (simp add: ArticleProvider_def RecommendationProvider_def memory_stores_keep_votes)
  have second: "precompute plain_filtering (ArticleProvider memory_storage) None
      \<lparr> votes_cache = Some [(''U1'', ''A1@|'', 5), (''U2'', ''A1@|'', 4), (''U1'', ''A2@|'', 3),
                             (''U2'', ''A3@|'', 5)],
        similarities_store = Some [(''A1@|'', []), (''A1@|'', []), (''A2@|'', []), (''A3@|'', [])],
        recommendations_store = Some [(''U1'', [(''A1@|'', 4), (''A3@|'', 5)]),
                                      (''U2'', [(''A1@|'', 5), (''A2@|'', 3)])] \<rparr> =
     (Inr (),
      fst (snd (precompute plain_filtering (ArticleProvider memory_storage) None
      \<lparr> votes_cache = Some [(''U1'', ''A1@|'', 5), (''U2'', ''A1@|'', 4), (''U1'', ''A2@|'', 3),
                             (''U2'', ''A3@|'', 5)],
        similarities_store = Some [(''A1@|'', []), (''A1@|'', []), (''A2@|'', []), (''A3@|'', [])],
        recommendations_store = Some [(''U1'', [(''A1@|'', 4), (''A3@|'', 5)]),
                                      (''U2'', [(''A1@|'', 5), (''A2@|'', 3)])] \<rparr>)),
      snd (snd (precompute plain_filtering (ArticleProvider memory_storage) None
      \<lparr> votes_cache = Some [(''U1'', ''A1@|'', 5), (''U2'', ''A1@|'', 4), (''U1'', ''A2@|'', 3),
                             (''U2'', ''A3@|'', 5)],
        similarities_store = Some [(''A1@|'', []), (''A1@|'', []), (''A2@|'', []), (''A3@|'', [])],
        recommendations_store = Some [(''U1'', [(''A1@|'', 4), (''A3@|'', 5)]),
                                      (''U2'', [(''A1@|'', 5), (''A2@|'', 3)])] \<rparr>)))"
    using article_precompute_second by (simp add: prod_eq_iff)
  show ?thesis
    using serves keeps article_precompute_first second
    by (rule precompute_rerun_stores_same)
qed

section \<open>What a run of precompute does\<close>

lemma precompute_resolve:
  "precompute F self given =
     seq (resolve_votes self given) (\<lambda>votes.
     seq (emit (LogInfo ''calculating similarities...'')) (\<lambda>_.
     seq (calculate_similarities F self votes) (\<lambda>itemMatch.
     seq (emit (LogInfo ''saving similarities...'')) (\<lambda>_.
     seq (port (StoreSimilarities itemMatch) (store_similarities (storage self) itemMatch)) (\<lambda>_.
     seq (emit (LogInfo ''saving suggestions...'')) (\<lambda>_.
     seq (calculate_recommendations F self votes itemMatch) (\<lambda>recommendations.
     port (StoreRecommendations recommendations)
          (store_recommendations (storage self) recommendations))))))))"
  by (simp add: precompute_def resolve_votes_def)

lemma precompute_resolve_fails:
  "resolve_votes self given s = (Inl e, tv, sv) \<Longrightarrow> precompute F self given s = (Inl e, tv, sv)"
  by (simp add: precompute_resolve seq_def)

lemma precompute_similarities_fail:
  assumes "resolve_votes self given s = (Inr votes, tv, sv)"
    and "calculate_similar_items F votes (similarity self) = Inl e"
  shows "precompute F self given s =
    (Inl e, tv @ [LogInfo ''calculating similarities...'',
                  CalculateSimilarItems votes (similarity self), Raised e], sv)"
  using assms
  by (simp add: precompute_resolve calculate_similarities_def seq_def emit_def call_def)

lemma precompute_store_similarities_fails:
  assumes "resolve_votes self given s = (Inr votes, tv, sv)"
    and "calculate_similar_items F votes (similarity self) = Inr im"
    and "store_similarities (storage self) im sv = (Inl e, s3)"
  shows "precompute F self given s =
    (Inl e, tv @ [LogInfo ''calculating similarities...'',
                  CalculateSimilarItems votes (similarity self),
                  LogInfo ''saving similarities...'', StoreSimilarities im, Raised e], s3)"
  using assms
  by (simp add: precompute_resolve calculate_similarities_def seq_def emit_def call_def port_def)

lemma precompute_recommendations_fail:
  assumes "resolve_votes self given s = (Inr votes, tv, sv)"
    and "calculate_similar_items F votes (similarity self) = Inr im"
    and "store_similarities (storage self) im sv = (Inr (), s3)"
    and "calculate_recommendations F self votes im s3 = (Inl e, trec, s4)"
  shows "precompute F self given s =
    (Inl e, tv @ [LogInfo ''calculating similarities...'',
                  CalculateSimilarItems votes (similarity self),
                  LogInfo ''saving similarities...'', StoreSimilarities im,
                  LogInfo ''saving suggestions...''] @ trec, s4)"
  using assms
  by (simp add: precompute_resolve calculate_similarities_def seq_def emit_def call_def port_def)

lemma precompute_store_recommendations:
  assumes "resolve_votes self given s = (Inr votes, tv, sv)"
    and "calculate_similar_items F votes (similarity self) = Inr im"
    and "store_similarities (storage self) im sv = (Inr (), s3)"
    and "calculate_recommendations F self votes im s3 = (Inr recs, trec, s4)"
    and "store_recommendations (storage self) recs s4 = (r, s5)"
  shows "precompute F self given s =
    (r, tv @ [LogInfo ''calculating similarities...'',
              CalculateSimilarItems votes (similarity self),
              LogInfo ''saving similarities...'', StoreSimilarities im,
              LogInfo ''saving suggestions...''] @ trec @
         StoreRecommendations recs # (case r of Inl e \<Rightarrow> [Raised e] | Inr u \<Rightarrow> []), s5)"
  using assms
  by (cases r)
    (simp_all add: precompute_resolve calculate_similarities_def seq_def emit_def call_def
      port_def)

lemma stage4_no_store:
  "list_all (\<lambda>ev. 4 \<le> stage ev \<and> stage ev \<le> 4) (filter is_step t) \<Longrightarrow> filter is_store t = []"
proof (induction t)
  case Nil
  show ?case by simp
next
  case (Cons ev t)
  then show ?case by (cases ev) simp_all
qed

lemma calculate_recommendations_no_store:
  assumes "calculate_recommendations F self votes itemMatch s = (r, t, s')"
  shows "s' = s \<and> filter is_store t = []"
proof
  show "s' = s"
    using calculate_recommendations_state [OF assms] by simp
  show "filter is_store t = []"
    using stagedD [OF staged_calculate_recommendations assms] by (intro stage4_no_store) simp
qed



text \<open>
  C2 (as amended). Every execution of \<^verbatim>\<open>precompute\<close> makes its calls in the order of
  the stages: the calls that resolve the vote list (stage 1), the computation of the
  similarities (stage 2), \<^verbatim>\<open>store_similarities\<close> (stage 3), the computation of the
  recommendations (stage 4), \<^verbatim>\<open>store_recommendations\<close> (stage 5); and an exception
  is the last event of the execution that raised it. A list given as argument is used
  as it is, with no call and no write; without one the list is what \<^verbatim>\<open>vote_list\<close>
  returns, which stores a rebuilt list. Computing the recommendations writes nothing.
  Stage by stage: when a stage raises, the run ends with that exception, with the
  calls made so far and the storage as that stage left it, so that the writes of the
  later stages have not happened; when all five return, the run returns, and its
  writes are those of the first stage followed by exactly the similarities computed
  from the list and then the recommendations computed from the list and these
  similarities.
\<close>

theorem precompute_stage_order:
  "sorted (map stage (filter is_step (fst (snd (precompute F self given s)))))
   \<and> well_ended (fst (precompute F self given s)) (fst (snd (precompute F self given s)))
   \<and> resolve_votes self (Some votes0) s = (Inr votes0, [], s)
   \<and> resolve_votes self None s =
       (case vote_list self s of
          (r, t, s') \<Rightarrow> (r, LogInfo ''fetching votes from the storage...'' # t, s'))
   \<and> (calculate_recommendations F self votes im s3 = (r4, trec, s4) \<longrightarrow>
         s4 = s3 \<and> filter is_store trec = [])
   \<and> (resolve_votes self given s = (Inl e, tv, sv) \<longrightarrow>
         precompute F self given s = (Inl e, tv, sv))
   \<and> (resolve_votes self given s = (Inr votes, tv, sv) \<longrightarrow>
        (calculate_similar_items F votes (similarity self) = Inl e \<longrightarrow>
           precompute F self given s =
             (Inl e, tv @ [LogInfo ''calculating similarities...'',
                           CalculateSimilarItems votes (similarity self), Raised e], sv))
      \<and> (calculate_similar_items F votes (similarity self) = Inr im \<longrightarrow>
          (store_similarities (storage self) im sv = (Inl e, s3) \<longrightarrow>
             precompute F self given s =
               (Inl e, tv @ [LogInfo ''calculating similarities...'',
                             CalculateSimilarItems votes (similarity self),
                             LogInfo ''saving similarities...'', StoreSimilarities im,
                             Raised e], s3))
        \<and> (store_similarities (storage self) im sv = (Inr (), s3) \<longrightarrow>
            (calculate_recommendations F self votes im s3 = (Inl e, trec, s4) \<longrightarrow>
               precompute F self given s =
                 (Inl e, tv @ [LogInfo ''calculating similarities...'',
                               CalculateSimilarItems votes (similarity self),
                               LogInfo ''saving similarities...'', StoreSimilarities im,
                               LogInfo ''saving suggestions...''] @ trec, s4))
          \<and> (calculate_recommendations F self votes im s3 = (Inr recs, trec, s4) \<longrightarrow>
              (store_recommendations (storage self) recs s4 = (Inl e, s5) \<longrightarrow>
                 precompute F self given s =
                   (Inl e, tv @ [LogInfo ''calculating similarities...'',
                                 CalculateSimilarItems votes (similarity self),
                                 LogInfo ''saving similarities...'', StoreSimilarities im,
                                 LogInfo ''saving suggestions...''] @ trec @
                              [StoreRecommendations recs, Raised e], s5))
            \<and> (store_recommendations (storage self) recs s4 = (Inr (), s5) \<longrightarrow>
                 precompute F self given s =
                   (Inr (), tv @ [LogInfo ''calculating similarities...'',
                                  CalculateSimilarItems votes (similarity self),
                                  LogInfo ''saving similarities...'', StoreSimilarities im,
                                  LogInfo ''saving suggestions...''] @ trec @
                               [StoreRecommendations recs], s5)
                 \<and> filter is_store (fst (snd (precompute F self given s))) =
                     filter is_store tv @ [StoreSimilarities im, StoreRecommendations recs])))))"
proof (intro conjI impI)
  show "sorted (map stage (filter is_step (fst (snd (precompute F self given s)))))"
    using staged_precompute [of F self given] unfolding staged_def by blast
  show "well_ended (fst (precompute F self given s)) (fst (snd (precompute F self given s)))"
    using ends_well_precompute [of F self given] unfolding ends_well_def by blast
  show "resolve_votes self (Some votes0) s = (Inr votes0, [], s)"
    by (simp add: resolve_votes_def ret_def)
  show "resolve_votes self None s =
       (case vote_list self s of
          (r, t, s') \<Rightarrow> (r, LogInfo ''fetching votes from the storage...'' # t, s'))"
    by (simp add: resolve_votes_def seq_emit)
next
  assume rec: "calculate_recommendations F self votes im s3 = (r4, trec, s4)"
  show "s4 = s3"
    using calculate_recommendations_no_store [OF rec] by simp
  show "filter is_store trec = []"
    using calculate_recommendations_no_store [OF rec] by simp
next
  assume "resolve_votes self given s = (Inl e, tv, sv)"
  then show "precompute F self given s = (Inl e, tv, sv)"
    by (rule precompute_resolve_fails)
next
  assume "resolve_votes self given s = (Inr votes, tv, sv)"
    and "calculate_similar_items F votes (similarity self) = Inl e"
  then show "precompute F self given s =
             (Inl e, tv @ [LogInfo ''calculating similarities...'',
                           CalculateSimilarItems votes (similarity self), Raised e], sv)"
    by (rule precompute_similarities_fail)
next
  assume "resolve_votes self given s = (Inr votes, tv, sv)"
    and "calculate_similar_items F votes (similarity self) = Inr im"
    and "store_similarities (storage self) im sv = (Inl e, s3)"
  then show "precompute F self given s =
               (Inl e, tv @ [LogInfo ''calculating similarities...'',
                             CalculateSimilarItems votes (similarity self),
                             LogInfo ''saving similarities...'', StoreSimilarities im,
                             Raised e], s3)"
    by (rule precompute_store_similarities_fails)
next
  assume "resolve_votes self given s = (Inr votes, tv, sv)"
    and "calculate_similar_items F votes (similarity self) = Inr im"
    and "store_similarities (storage self) im sv = (Inr (), s3)"
    and "calculate_recommendations F self votes im s3 = (Inl e, trec, s4)"
  then show "precompute F self given s =
                 (Inl e, tv @ [LogInfo ''calculating similarities...'',
                               CalculateSimilarItems votes (similarity self),
                               LogInfo ''saving similarities...'', StoreSimilarities im,
                               LogInfo ''saving suggestions...''] @ trec, s4)"
    by (rule precompute_recommendations_fail)
next
  assume "resolve_votes self given s = (Inr votes, tv, sv)"
    and "calculate_similar_items F votes (similarity self) = Inr im"
    and "store_similarities (storage self) im sv = (Inr (), s3)"
    and "calculate_recommendations F self votes im s3 = (Inr recs, trec, s4)"
    and "store_recommendations (storage self) recs s4 = (Inl e, s5)"
  then show "precompute F self given s =
                   (Inl e, tv @ [LogInfo ''calculating similarities...'',
                                 CalculateSimilarItems votes (similarity self),
                                 LogInfo ''saving similarities...'', StoreSimilarities im,
                                 LogInfo ''saving suggestions...''] @ trec @
                              [StoreRecommendations recs, Raised e], s5)"
    using precompute_store_recommendations [of self given s votes tv sv F im s3 recs trec s4
        "Inl e" s5]
    by simp
next
  assume a: "resolve_votes self given s = (Inr votes, tv, sv)"
    "calculate_similar_items F votes (similarity self) = Inr im"
    "store_similarities (storage self) im sv = (Inr (), s3)"
    "calculate_recommendations F self votes im s3 = (Inr recs, trec, s4)"
    "store_recommendations (storage self) recs s4 = (Inr (), s5)"
  then show run: "precompute F self given s =
                   (Inr (), tv @ [LogInfo ''calculating similarities...'',
                                  CalculateSimilarItems votes (similarity self),
                                  LogInfo ''saving similarities...'', StoreSimilarities im,
                                  LogInfo ''saving suggestions...''] @ trec @
                               [StoreRecommendations recs], s5)"
    using precompute_store_recommendations [of self given s votes tv sv F im s3 recs trec s4
        "Inr ()" s5]
    by simp
  have "filter is_store trec = []"
    using calculate_recommendations_no_store [OF a(4)] by simp
  then show "filter is_store (fst (snd (precompute F self given s))) =
      filter is_store tv @ [StoreSimilarities im, StoreRecommendations recs]"
    using run by simp
qed


theorem precompute_stage_order_witness:
  "precompute plain_filtering (ArticleProvider memory_storage) (Some [(''U1'', ''A1@|'', 5)]) (empty_memory :: (string, int) memory) =
     (Inr (),
      [LogInfo ''calculating similarities...'',
       CalculateSimilarItems [(''U1'', ''A1@|'', 5)] ''sim_distance'',
       LogInfo ''saving similarities...'',
       StoreSimilarities [(''A1@|'', [])],
       LogInfo ''saving suggestions...'',
       GetUsers,
       GetRecommendedItems [(''U1'', ''A1@|'', 5)] [(''A1@|'', [])] ''U1'',
       GetRecommendedItems [(''U1'', ''A1@|'', 5)] [(''A1@|'', [])] ''U2'',
       StoreRecommendations [(''U1'', []), (''U2'', [(''A1@|'', 5)])]],
      (empty_memory \<lparr> similarities_store := Some [(''A1@|'', [])], recommendations_store := Some [(''U1'', []), (''U2'', [(''A1@|'', 5)])] \<rparr>))
   \<and> precompute failing_filtering (ArticleProvider memory_storage) (Some [(''U1'', ''A1@|'', 5)]) (empty_memory :: (string, int) memory) =
     (Inl IOError,
      [LogInfo ''calculating similarities...'',
       CalculateSimilarItems [(''U1'', ''A1@|'', 5)] ''sim_distance'',
       LogInfo ''saving similarities...'',
       StoreSimilarities [(''A1@|'', [])],
       LogInfo ''saving suggestions...'',
       GetUsers,
       GetRecommendedItems [(''U1'', ''A1@|'', 5)] [(''A1@|'', [])] ''U1'',
       Raised IOError],
      (empty_memory \<lparr> similarities_store := Some [(''A1@|'', [])] \<rparr>))"
proof -
  have resolve: "resolve_votes (ArticleProvider memory_storage) (Some [(''U1'', ''A1@|'', 5)]) (empty_memory :: (string, int) memory) = (Inr [(''U1'', ''A1@|'', 5)], [], empty_memory)"
    by (simp add: resolve_votes_def ret_def)
  have sim: "calculate_similar_items plain_filtering [(''U1'', ''A1@|'', 5)] (similarity (ArticleProvider memory_storage)) = Inr [(''A1@|'', [])]"
    by (simp add: plain_filtering_def)
  have sim_f: "calculate_similar_items failing_filtering [(''U1'', ''A1@|'', 5)] (similarity (ArticleProvider memory_storage)) = Inr [(''A1@|'', [])]"
    by (simp add: failing_filtering_def plain_filtering_def)
  have store_sim: "store_similarities (storage (ArticleProvider memory_storage)) [(''A1@|'', [])] (empty_memory :: (string, int) memory) = (Inr (), (empty_memory \<lparr> similarities_store := Some [(''A1@|'', [])] \<rparr>))"
    by (simp add: ArticleProvider_def RecommendationProvider_def memory_storage_def)
  have recs: "calculate_recommendations plain_filtering (ArticleProvider memory_storage) [(''U1'', ''A1@|'', 5)] [(''A1@|'', [])] (empty_memory \<lparr> similarities_store := Some [(''A1@|'', [])] \<rparr>) = (Inr [(''U1'', []), (''U2'', [(''A1@|'', 5)])], [GetUsers, GetRecommendedItems [(''U1'', ''A1@|'', 5)] [(''A1@|'', [])] ''U1'', GetRecommendedItems [(''U1'', ''A1@|'', 5)] [(''A1@|'', [])] ''U2''], (empty_memory \<lparr> similarities_store := Some [(''A1@|'', [])] \<rparr>))"
    by (simp add: calculate_recommendations_def seq_def call_def ret_def ArticleProvider_def
        RecommendationProvider_def plain_filtering_def)
  have recs_f: "calculate_recommendations failing_filtering (ArticleProvider memory_storage) [(''U1'', ''A1@|'', 5)] [(''A1@|'', [])] (empty_memory \<lparr> similarities_store := Some [(''A1@|'', [])] \<rparr>) = (Inl IOError, [GetUsers, GetRecommendedItems [(''U1'', ''A1@|'', 5)] [(''A1@|'', [])] ''U1'', Raised IOError], (empty_memory \<lparr> similarities_store := Some [(''A1@|'', [])] \<rparr>))"
    by (simp add: calculate_recommendations_def seq_def call_def ret_def ArticleProvider_def
        RecommendationProvider_def failing_filtering_def plain_filtering_def)
  have store_rec: "store_recommendations (storage (ArticleProvider memory_storage)) [(''U1'', []), (''U2'', [(''A1@|'', 5)])] (empty_memory \<lparr> similarities_store := Some [(''A1@|'', [])] \<rparr>) = (Inr (), (empty_memory \<lparr> similarities_store := Some [(''A1@|'', [])], recommendations_store := Some [(''U1'', []), (''U2'', [(''A1@|'', 5)])] \<rparr>))"
    by (simp add: ArticleProvider_def RecommendationProvider_def memory_storage_def
        empty_memory_def)
  have metric: "similarity (ArticleProvider memory_storage) = ''sim_distance''"
    by (simp add: ArticleProvider_def RecommendationProvider_def)
  note returning = precompute_stage_order [where F = plain_filtering and self = "ArticleProvider memory_storage"
      and given = "Some [(''U1'', ''A1@|'', 5)]" and s = "empty_memory :: (string, int) memory" and votes = "[(''U1'', ''A1@|'', 5)]"
      and tv = "[]" and sv = empty_memory and im = "[(''A1@|'', [])]" and ?s3.0 = "empty_memory \<lparr> similarities_store := Some [(''A1@|'', [])] \<rparr>"
      and recs = "[(''U1'', []), (''U2'', [(''A1@|'', 5)])]" and trec = "[GetUsers, GetRecommendedItems [(''U1'', ''A1@|'', 5)] [(''A1@|'', [])] ''U1'', GetRecommendedItems [(''U1'', ''A1@|'', 5)] [(''A1@|'', [])] ''U2'']"
      and ?s4.0 = "empty_memory \<lparr> similarities_store := Some [(''A1@|'', [])] \<rparr>" and ?s5.0 = "empty_memory \<lparr> similarities_store := Some [(''A1@|'', [])], recommendations_store := Some [(''U1'', []), (''U2'', [(''A1@|'', 5)])] \<rparr>"
      and ?r4.0 = "Inr [(''U1'', []), (''U2'', [(''A1@|'', 5)])]" and e = IOError and votes0 = "[(''U1'', ''A1@|'', 5)]"]
  note failing = precompute_stage_order [where F = failing_filtering and self = "ArticleProvider memory_storage"
      and given = "Some [(''U1'', ''A1@|'', 5)]" and s = "empty_memory :: (string, int) memory" and votes = "[(''U1'', ''A1@|'', 5)]"
      and tv = "[]" and sv = empty_memory and im = "[(''A1@|'', [])]" and ?s3.0 = "empty_memory \<lparr> similarities_store := Some [(''A1@|'', [])] \<rparr>"
      and trec = "[GetUsers, GetRecommendedItems [(''U1'', ''A1@|'', 5)] [(''A1@|'', [])] ''U1'', Raised IOError]"
      and ?s4.0 = "empty_memory \<lparr> similarities_store := Some [(''A1@|'', [])] \<rparr>" and ?r4.0 = "Inl IOError" and e = IOError
      and votes0 = "[(''U1'', ''A1@|'', 5)]"]
  have a: "precompute plain_filtering (ArticleProvider memory_storage) (Some [(''U1'', ''A1@|'', 5)]) (empty_memory :: (string, int) memory) =
     (Inr (),
      [LogInfo ''calculating similarities...'',
       CalculateSimilarItems [(''U1'', ''A1@|'', 5)] ''sim_distance'',
       LogInfo ''saving similarities...'',
       StoreSimilarities [(''A1@|'', [])],
       LogInfo ''saving suggestions...'',
       GetUsers,
       GetRecommendedItems [(''U1'', ''A1@|'', 5)] [(''A1@|'', [])] ''U1'',
       GetRecommendedItems [(''U1'', ''A1@|'', 5)] [(''A1@|'', [])] ''U2'',
       StoreRecommendations [(''U1'', []), (''U2'', [(''A1@|'', 5)])]],
      (empty_memory \<lparr> similarities_store := Some [(''A1@|'', [])], recommendations_store := Some [(''U1'', []), (''U2'', [(''A1@|'', 5)])] \<rparr>))"
    using returning resolve sim store_sim recs store_rec metric by simp
  have b: "precompute failing_filtering (ArticleProvider memory_storage) (Some [(''U1'', ''A1@|'', 5)]) (empty_memory :: (string, int) memory) =
     (Inl IOError,
      [LogInfo ''calculating similarities...'',
       CalculateSimilarItems [(''U1'', ''A1@|'', 5)] ''sim_distance'',
       LogInfo ''saving similarities...'',
       StoreSimilarities [(''A1@|'', [])],
       LogInfo ''saving suggestions...'',
       GetUsers,
       GetRecommendedItems [(''U1'', ''A1@|'', 5)] [(''A1@|'', [])] ''U1'',
       Raised IOError],
      (empty_memory \<lparr> similarities_store := Some [(''A1@|'', [])] \<rparr>))"
    using failing resolve sim_f store_sim recs_f metric by simp
  show ?thesis
    using a b by (rule conjI)
qed

text \<open>
  The order of the claim as worded, all computation first and the writes only then,
  is not the order of the code: in this run, which returns, the similarities are stored
  before the recommendations are computed (and the vote list, given as an argument, is
  not stored at all).
\<close>

theorem precompute_persists_before_recommending:
  "precompute plain_filtering (ArticleProvider memory_storage) (Some [(''U1'', ''A1@|'', 5)])
      (empty_memory :: (string, int) memory) =
     (Inr (),
      [LogInfo ''calculating similarities...'',
       CalculateSimilarItems [(''U1'', ''A1@|'', 5)] ''sim_distance'',
       LogInfo ''saving similarities...'',
       StoreSimilarities [(''A1@|'', [])],
       LogInfo ''saving suggestions...'',
       GetUsers,
       GetRecommendedItems [(''U1'', ''A1@|'', 5)] [(''A1@|'', [])] ''U1'',
       GetRecommendedItems [(''U1'', ''A1@|'', 5)] [(''A1@|'', [])] ''U2'',
       StoreRecommendations [(''U1'', []), (''U2'', [(''A1@|'', 5)])]],
      empty_memory \<lparr> similarities_store := Some [(''A1@|'', [])],
                     recommendations_store := Some [(''U1'', []), (''U2'', [(''A1@|'', 5)])] \<rparr>)
   \<and> \<not> persists_last (fst (snd (precompute plain_filtering (ArticleProvider memory_storage)
          (Some [(''U1'', ''A1@|'', 5)]) (empty_memory :: (string, int) memory))))"
  by (simp add: precompute_def calculate_similarities_def calculate_recommendations_def
      seq_def port_def call_def ret_def emit_def ArticleProvider_def RecommendationProvider_def
      memory_storage_def empty_memory_def plain_filtering_def persists_last_def)

end
